theory Spec2Isabelle
  imports Main "HOL-Library.Char_ord" "HOL-Library.List_Lexorder"
    "HOL-Library.Product_Lexorder" "HOL-Library.Sublist" "HOL-Library.AList"
begin

section \<open>Python values, strings and errors\<close>

text \<open>
  The three scripts (\<^verbatim>\<open>paper_tracker.py\<close>, \<^verbatim>\<open>news_monitor.py\<close>,
  \<^verbatim>\<open>paper_tracker_v2.py\<close>) are embedded as total functions. What a script reads
  from outside (the tracking file, fetched pages, the reviewer, the gateway, the clock) is an
  argument; what it does to the outside (the file it writes, the messages it hands to the
  gateway, what it prints, the exception that ends it) is the result.

  Strings are byte strings (\<^typ>\<open>string\<close>); Python's \<^verbatim>\<open>lower\<close>,
  \<^verbatim>\<open>strip\<close> and slicing are modelled on ASCII text. Strings compare as in Python:
  lexicographically by character code.
\<close>

datatype json =
    JNull
  | JBool bool
  | JInt int
  | JStr string
  | JList "json list"
  | JDict "(string \<times> json) list"

text \<open>
  A \<^const>\<open>JDict\<close> holds a Python dict as its items in insertion order, looked up with
  \<^const>\<open>map_of\<close> and updated with \<^const>\<open>AList.update\<close>. JSON numbers are
  restricted to integers.
\<close>

datatype error =
    JSONDecodeError
  | AttributeError
  | TypeError
  | KeyError
  | CalledProcessError
  | TimeoutExpired

text \<open>
  The tracking file: absent, or present with the outcome of \<^verbatim>\<open>json.load\<close> on its
  bytes, which either raises (\<open>Garbage\<close>) or returns a value.
\<close>

datatype content = Garbage | Json json

type_synonym store = "content option"

subsection \<open>String operations\<close>

definition lower_char :: "char \<Rightarrow> char" where
  "lower_char c =
     (if CHR ''A'' \<le> c \<and> c \<le> CHR ''Z'' then char_of (of_char c + (32::nat)) else c)"

definition lower :: "string \<Rightarrow> string" where
  "lower s = map lower_char s"

text \<open>Python's \<^verbatim>\<open>kw in s\<close> on strings: \<open>kw\<close> occurs in \<open>s\<close> as a substring.\<close>

fun is_sub :: "string \<Rightarrow> string \<Rightarrow> bool" where
  "is_sub kw [] = (kw = [])"
| "is_sub kw (c # cs) = (prefix kw (c # cs) \<or> is_sub kw cs)"

definition is_space :: "char \<Rightarrow> bool" where
  "is_space c = ((of_char c :: nat) \<in> {9, 10, 11, 12, 13, 28, 29, 30, 31, 32})"

definition lstrip :: "string \<Rightarrow> string" where
  "lstrip s = dropWhile is_space s"

definition rstrip :: "string \<Rightarrow> string" where
  "rstrip s = rev (dropWhile is_space (rev s))"

definition strip :: "string \<Rightarrow> string" where
  "strip s = rstrip (lstrip s)"

definition lstrip_char :: "char \<Rightarrow> string \<Rightarrow> string" where
  "lstrip_char c s = dropWhile (\<lambda>x. x = c) s"

definition rstrip_char :: "char \<Rightarrow> string \<Rightarrow> string" where
  "rstrip_char c s = rev (dropWhile (\<lambda>x. x = c) (rev s))"

text \<open>\<^verbatim>\<open>s.replace('\n', ' ')\<close>.\<close>

definition newline_to_space :: "string \<Rightarrow> string" where
  "newline_to_space s = map (\<lambda>c. if c = CHR 0x0A then CHR '' '' else c) s"

text \<open>
  \<^verbatim>\<open>s.split(sep)\<close> for a non-empty separator: scanning from the left, each
  occurrence of \<open>sep\<close> ends a piece. \<open>acc\<close> is the current piece, reversed.
\<close>

function split_from :: "string \<Rightarrow> string \<Rightarrow> string \<Rightarrow> string list" where
  "split_from sep acc [] = [rev acc]"
| "split_from sep acc (c # cs) =
     (if sep \<noteq> [] \<and> prefix sep (c # cs)
      then rev acc # split_from sep [] (drop (length sep) (c # cs))
      else split_from sep (c # acc) cs)"
  by pat_completeness auto
termination
  by (relation "measure (\<lambda>(sep, acc, s). length s)") auto

definition split :: "string \<Rightarrow> string \<Rightarrow> string list" where
  "split s sep = split_from sep [] s"

subsection \<open>Dynamic operations on decoded JSON\<close>

text \<open>\<^verbatim>\<open>d.get(k, default)\<close> on a dict's items.\<close>

definition dict_get :: "(string \<times> json) list \<Rightarrow> string \<Rightarrow> json \<Rightarrow> json" where
  "dict_get kvs k d = (case map_of kvs k of None \<Rightarrow> d | Some v \<Rightarrow> v)"

text \<open>\<^verbatim>\<open>x.get(k, default)\<close>: only a dict has the method.\<close>

fun py_get :: "json \<Rightarrow> string \<Rightarrow> json \<Rightarrow> error + json" where
  "py_get (JDict kvs) k d = Inr (dict_get kvs k d)"
| "py_get _ k d = Inl AttributeError"

text \<open>\<^verbatim>\<open>x[k]\<close> with a string key.\<close>

fun py_getitem :: "json \<Rightarrow> string \<Rightarrow> error + json" where
  "py_getitem (JDict kvs) k = (case map_of kvs k of None \<Rightarrow> Inl KeyError | Some v \<Rightarrow> Inr v)"
| "py_getitem _ k = Inl TypeError"

text \<open>\<^verbatim>\<open>x[k] = v\<close> with a string key.\<close>

fun py_setitem :: "json \<Rightarrow> string \<Rightarrow> json \<Rightarrow> error + json" where
  "py_setitem (JDict kvs) k v = Inr (JDict (AList.update k v kvs))"
| "py_setitem _ k v = Inl TypeError"

text \<open>
  \<^verbatim>\<open>u in x\<close> for a string \<open>u\<close>: an element of a list, a substring of a string, a key of
  a dict; anything else is not iterable.
\<close>

fun py_contains :: "json \<Rightarrow> string \<Rightarrow> error + bool" where
  "py_contains (JList xs) u = Inr (JStr u \<in> set xs)"
| "py_contains (JStr s) u = Inr (is_sub u s)"
| "py_contains (JDict kvs) u = Inr (u \<in> fst ` set kvs)"
| "py_contains _ u = Inl TypeError"

text \<open>\<^verbatim>\<open>x.append(u)\<close>: only a list has the method.\<close>

fun py_append :: "json \<Rightarrow> string \<Rightarrow> error + json" where
  "py_append (JList xs) u = Inr (JList (xs @ [JStr u]))"
| "py_append _ u = Inl AttributeError"

text \<open>
  Python sets of hashable JSON values. Python identifies \<^verbatim>\<open>True\<close> with 1 and
  \<^verbatim>\<open>False\<close> with 0 as set elements; \<open>py_key\<close> is the representative compared.
  A set is modelled as the list of its elements in insertion order; CPython's iteration order
  is not specified, and the properties below speak of membership only.
\<close>

fun py_key :: "json \<Rightarrow> json" where
  "py_key (JBool b) = JInt (if b then 1 else 0)"
| "py_key j = j"

definition py_in :: "json \<Rightarrow> json list \<Rightarrow> bool" where
  "py_in x s = (py_key x \<in> set (map py_key s))"

definition py_set_add :: "json list \<Rightarrow> json \<Rightarrow> json list" where
  "py_set_add s x = (if py_in x s then s else s @ [x])"

fun hashable :: "json \<Rightarrow> bool" where
  "hashable (JList xs) = False"
| "hashable (JDict kvs) = False"
| "hashable j = True"

text \<open>Iterating a value: list elements, the characters of a string, the keys of a dict.\<close>

fun py_iter :: "json \<Rightarrow> error + json list" where
  "py_iter (JList xs) = Inr xs"
| "py_iter (JStr s) = Inr (map (\<lambda>c. JStr [c]) s)"
| "py_iter (JDict kvs) = Inr (map (\<lambda>kv. JStr (fst kv)) kvs)"
| "py_iter _ = Inl TypeError"

definition py_set :: "json \<Rightarrow> error + json list" where
  "py_set j =
     (case py_iter j of
        Inl e \<Rightarrow> Inl e
      | Inr xs \<Rightarrow>
          if list_all hashable xs then Inr (fold (\<lambda>x s. py_set_add s x) xs [])
          else Inl TypeError)"

text \<open>
  What \<open>main\<close> prints about the outcome of a run, line by line; \<open>'d\<close> is the digest
  type of the script. Progress lines and the warnings of failed fetches are left out, and the
  display strings (Chinese in the scripts) are named by constructors.
\<close>

datatype 'd line =
    Banner
  | Found "nat list"
  | Sent_ok
  | Send_failed
  | Gateway_error
  | Shown 'd
  | Nothing_new
  | Review_done
  | Review_unavailable

section \<open>paper\_tracker.py\<close>

definition KEYWORDS :: "string list" where
  "KEYWORDS =
     [''multi-agent'', ''multi agent'', ''agent'', ''collaboration'', ''cooperation'',
      ''task planning'', ''task allocation'', ''coordination'', ''llm'', ''reasoning'',
      ''autonomous'', ''swarm'', ''collective'', ''distributed'', ''emergent'']"

text \<open>
  A paper dict: keys \<^verbatim>\<open>id\<close>, \<^verbatim>\<open>link\<close>, \<^verbatim>\<open>title\<close>,
  \<^verbatim>\<open>abstract\<close>, \<^verbatim>\<open>score\<close>.
\<close>

record paper =
  p_id :: string
  p_link :: string
  p_title :: string
  p_abstract :: string
  p_score :: nat

text \<open>
  The fetched listing as \<open>parse_papers\<close> reads it: the results of its three
  \<^verbatim>\<open>re.findall\<close> calls.
\<close>

record arxiv_page =
  found_ids :: "string list"
  found_titles :: "string list"
  found_abstracts :: "string list"

definition arxiv_link :: "string \<Rightarrow> string" where
  "arxiv_link paper_id = ''https://arxiv.org/'' @ paper_id"

definition keyword_score :: "string list \<Rightarrow> string \<Rightarrow> nat" where
  "keyword_score kws txt = length (filter (\<lambda>kw. is_sub kw txt) kws)"

definition parse_papers :: "arxiv_page \<Rightarrow> paper list" where
  "parse_papers html =
     map (\<lambda>(i, paper_id).
            let title = (if i < length (found_titles html)
                         then strip (found_titles html ! i) else ''Unknown'');
                abstract = (if i < length (found_abstracts html)
                            then take 200 (strip (newline_to_space (found_abstracts html ! i)))
                            else '''');
                score = keyword_score KEYWORDS (lower (title @ abstract))
            in \<lparr>p_id = paper_id, p_link = arxiv_link paper_id, p_title = title,
                p_abstract = abstract, p_score = score\<rparr>)
         (enumerate 0 (found_ids html))"

text \<open>
  \<open>fetch_arxiv_list\<close> runs curl with \<^verbatim>\<open>check=True\<close> and has no handler: a failed
  fetch (\<open>None\<close>) raises.
\<close>

definition fetch_arxiv_list :: "arxiv_page option \<Rightarrow> error + arxiv_page" where
  "fetch_arxiv_list net = (case net of None \<Rightarrow> Inl CalledProcessError | Some html \<Rightarrow> Inr html)"

fun load_tracked :: "store \<Rightarrow> error + (json list \<times> json)" where
  "load_tracked None = Inr ([], JNull)"
| "load_tracked (Some Garbage) = Inl JSONDecodeError"
| "load_tracked (Some (Json (JDict kvs))) =
     (case py_set (dict_get kvs ''tracked'' (JList [])) of
        Inl e \<Rightarrow> Inl e
      | Inr tracked \<Rightarrow> Inr (tracked, dict_get kvs ''last_run'' JNull))"
| "load_tracked (Some (Json _)) = Inl AttributeError"

definition save_tracked :: "json list \<Rightarrow> string \<Rightarrow> store" where
  "save_tracked tracked now =
     Some (Json (JDict [(''tracked'', JList tracked), (''last_run'', JStr now)]))"

text \<open>
  \<open>send_to_telegram\<close>: the gateway's answer is the response body, or nothing when the
  request raised (the handler prints the error and returns \<^verbatim>\<open>None\<close>).
\<close>

definition send_to_telegram :: "string option \<Rightarrow> string option \<times> 'd line list" where
  "send_to_telegram gateway =
     (case gateway of None \<Rightarrow> (None, [Gateway_error]) | Some body \<Rightarrow> (Some body, []))"

text \<open>\<^verbatim>\<open>if result:\<close> on an optional string.\<close>

definition truthy :: "string option \<Rightarrow> bool" where
  "truthy result = (case result of None \<Rightarrow> False | Some body \<Rightarrow> body \<noteq> [])"

text \<open>The digest message: its date, one entry per rendered paper, and the footer's count.\<close>

record entry =
  e_rank :: nat
  e_title :: string
  e_link :: string
  e_stars :: nat

record digest =
  d_date :: string
  d_entries :: "entry list"
  d_total :: nat

text \<open>
  The new relevant papers, sorted. \<^verbatim>\<open>list.sort\<close> is stable, as \<^const>\<open>sort_key\<close> is, and
  a stable sort by a key has one result.
\<close>

definition relevant :: "json list \<Rightarrow> paper list \<Rightarrow> paper list" where
  "relevant tracked papers =
     sort_key (\<lambda>x. (- int (p_score x), p_id x))
       (filter (\<lambda>p. p_score p > 0 \<and> \<not> py_in (JStr (p_id p)) tracked) papers)"

definition message :: "string \<Rightarrow> paper list \<Rightarrow> digest" where
  "message now rel =
     \<lparr>d_date = now,
      d_entries = map (\<lambda>(i, p). \<lparr>e_rank = i, e_title = take 55 (p_title p),
                                  e_link = p_link p, e_stars = p_score p\<rparr>)
                      (enumerate 1 (take 5 rel)),
      d_total = length rel\<rparr>"

definition track :: "json list \<Rightarrow> paper list \<Rightarrow> json list" where
  "track tracked rel = fold (\<lambda>p t. py_set_add t (JStr (p_id p))) rel tracked"

text \<open>What a run reads from outside, and what it leaves behind.\<close>

record pt_world =
  arxiv :: "arxiv_page option"
  gateway :: "string option"
  now :: string

record 'd run =
  store_after :: store
  attempts :: "'d list"
  console :: "'d line list"
  raised :: "error option"

definition aborted :: "store \<Rightarrow> 'd list \<Rightarrow> 'd line list \<Rightarrow> error \<Rightarrow> 'd run" where
  "aborted st sent out e = \<lparr>store_after = st, attempts = sent, console = out, raised = Some e\<rparr>"

definition main_pt :: "store \<Rightarrow> pt_world \<Rightarrow> digest run" where
  "main_pt st w =
     (case load_tracked st of
        Inl e \<Rightarrow> aborted st [] [Banner] e
      | Inr (tracked, last_run) \<Rightarrow>
          (case fetch_arxiv_list (arxiv w) of
             Inl e \<Rightarrow> aborted st [] [Banner] e
           | Inr html \<Rightarrow>
               let papers = parse_papers html;
                   rel = relevant tracked papers
               in if rel \<noteq> [] then
                    let msg = message (now w) rel;
                        (result, err) = send_to_telegram (gateway w)
                    in \<lparr>store_after = save_tracked (track tracked rel) (now w),
                        attempts = [msg],
                        console = [Banner, Found [length rel]] @ err @
                                  (if truthy result then [Sent_ok] else [Send_failed, Shown msg]),
                        raised = None\<rparr>
                  else
                    \<lparr>store_after = st, attempts = [],
                     console = [Banner, Found [length rel], Nothing_new], raised = None\<rparr>))"

section \<open>news\_monitor.py\<close>

text \<open>Sequencing of steps that may raise: the first exception ends the computation.\<close>

definition bind_err :: "error + 'a \<Rightarrow> ('a \<Rightarrow> error + 'b) \<Rightarrow> error + 'b" where
  "bind_err m f = (case m of Inl e \<Rightarrow> Inl e | Inr x \<Rightarrow> f x)"

definition KEYWORDS_nm :: "string list" where
  "KEYWORDS_nm =
     [''multi-agent'', ''multi agent'', ''agent'', ''collaboration'', ''cooperation'',
      ''task planning'', ''task allocation'', ''coordination'', ''llm'', ''reasoning'',
      ''autonomous'', ''swarm'', ''collective'', ''distributed'', ''emergent'',
      ''reinforcement learning'', ''foundation model'', ''generative ai'']"

text \<open>\<^verbatim>\<open>any(kw in txt for kw in kws)\<close>.\<close>

definition any_keyword :: "string list \<Rightarrow> string \<Rightarrow> bool" where
  "any_keyword kws txt = list_ex (\<lambda>kw. is_sub kw txt) kws"

text \<open>The item dicts of the four categories.\<close>

record story =
  hn_source :: string
  hn_title :: string
  hn_url :: string
  hn_points :: nat

record repo =
  gh_source :: string
  gh_name :: string
  gh_url :: string
  gh_stars :: nat

record conf_update =
  conf_source :: string
  conf_title :: string
  conf_url :: string
  conf_detail :: string

record post =
  blog_source :: string
  blog_title :: string
  blog_url :: string

text \<open>
  What \<open>fetch_url\<close> returns for each page a run asks for: \<open>None\<close> when the fetch
  raised (the handler returns \<^verbatim>\<open>None\<close>). A page read through
  \<^verbatim>\<open>re.finditer\<close> is given as the groups of its matches, with the digit groups
  already converted by \<^verbatim>\<open>int\<close>; an empty page has no match. Conference pages and
  repository pages are searched as text.
\<close>

record nm_world =
  hn_page :: "(string \<times> string \<times> nat) list option"
  gh_page :: "(string \<times> string \<times> nat) list option"
  repo_page :: "string \<Rightarrow> string option"
  nips_page :: "string option"
  iclr_page :: "string option"
  blog_page :: "string \<Rightarrow> (string \<times> string) list option"
  nm_gateway :: "string option"
  nm_now :: string

definition parse_hacker_news :: "(string \<times> string \<times> nat) list option \<Rightarrow> story list" where
  "parse_hacker_news html =
     (case html of
        None \<Rightarrow> []
      | Some matches \<Rightarrow>
          take 5
            (map (\<lambda>(url, title, points).
                    \<lparr>hn_source = ''Hacker News'', hn_title = title,
                     hn_url = (if prefix ''http'' url then url
                               else ''https://news.ycombinator.com/'' @ url),
                     hn_points = points\<rparr>)
               (filter (\<lambda>(url, title, points).
                          any_keyword [''ai'', ''llm'', ''agent'', ''gpt'', ''neural''] (lower title))
                  matches)))"

definition parse_github_trending ::
  "(string \<times> string \<times> nat) list option \<Rightarrow> (string \<Rightarrow> string option) \<Rightarrow> repo list" where
  "parse_github_trending html fetch_repo =
     (case html of
        None \<Rightarrow> []
      | Some matches \<Rightarrow>
          take 5
            (map (\<lambda>(repo_url, repo_name, stars).
                    \<lparr>gh_source = ''GitHub Trending'', gh_name = strip repo_name,
                     gh_url = ''https://github.com'' @ repo_url, gh_stars = stars\<rparr>)
               (filter (\<lambda>(repo_url, repo_name, stars).
                          (case fetch_repo repo_url of
                             None \<Rightarrow> False
                           | Some desc \<Rightarrow>
                               desc \<noteq> [] \<and> any_keyword KEYWORDS_nm (lower (repo_name @ desc))))
                  matches)))"

definition conference :: "string \<Rightarrow> string \<Rightarrow> string option \<Rightarrow> conf_update list" where
  "conference name url html =
     (case html of
        None \<Rightarrow> []
      | Some page \<Rightarrow>
          if page \<noteq> [] \<and> (is_sub ''accepted'' (lower page) \<or> is_sub ''deadline'' (lower page))
          then [\<lparr>conf_source = name, conf_title = ''conference update'', conf_url = url,
                 conf_detail = ''new announcement or update''\<rparr>]
          else [])"

definition parse_conferences :: "string option \<Rightarrow> string option \<Rightarrow> conf_update list" where
  "parse_conferences nips iclr =
     take 5 (conference ''NeurIPS 2025'' ''https://nips.cc/Conferences/2025'' nips @
             conference ''ICLR 2025'' ''https://iclr.cc/conference/2025'' iclr)"

definition blog_urls :: "(string \<times> string) list" where
  "blog_urls =
     [(''Lilac Weng'', ''https://lilianweng.github.io/''),
      (''Sebastian Ruder'', ''https://ruder.io/'')]"

definition blog_posts_of :: "string \<Rightarrow> string \<Rightarrow> (string \<times> string) list option \<Rightarrow> post list" where
  "blog_posts_of name url html =
     (case html of
        None \<Rightarrow> []
      | Some matches \<Rightarrow>
          map (\<lambda>(post_url, title).
                 \<lparr>blog_source = name, blog_title = take 80 (strip title),
                  blog_url = (if prefix ''http'' post_url then post_url
                              else rstrip_char CHR ''/'' url @ ''/'' @ lstrip_char CHR ''/'' post_url)\<rparr>)
            (filter (\<lambda>(post_url, title).
                       title \<noteq> [] \<and> length title > 10 \<and> \<not> prefix ''http'' title \<and>
                       any_keyword [''agent'', ''llm'', ''multi'', ''reasoning'', ''planning'']
                         (lower title))
               matches))"

definition parse_ai_blogs :: "(string \<Rightarrow> (string \<times> string) list option) \<Rightarrow> post list" where
  "parse_ai_blogs fetch_blog =
     take 5 (concat (map (\<lambda>(name, url). blog_posts_of name url (fetch_blog url)) blog_urls))"

definition default_config :: json where
  "default_config =
     JDict [(''tracked_hn'', JList []), (''tracked_gh'', JList []), (''tracked_conf'', JList []),
            (''tracked_blog'', JList []), (''last_run'', JNull)]"

fun load_config :: "store \<Rightarrow> error + json" where
  "load_config None = Inr default_config"
| "load_config (Some Garbage) = Inl JSONDecodeError"
| "load_config (Some (Json data)) = Inr data"

definition save_config :: "json \<Rightarrow> store" where
  "save_config data = Some (Json data)"

text \<open>
  The digest of \<open>format_message\<close>: the time and the lines of its four sections (a section with
  no item is left out of the text, here it has no line).
\<close>

record nm_digest =
  m_now :: string
  m_news :: "(nat \<times> string \<times> nat \<times> string) list"
  m_github :: "(nat \<times> string \<times> nat \<times> string) list"
  m_conf :: "(nat \<times> string \<times> string \<times> string) list"
  m_blog :: "(nat \<times> string \<times> string \<times> string) list"

definition format_message ::
  "string \<Rightarrow> story list \<Rightarrow> repo list \<Rightarrow> conf_update list \<Rightarrow> post list \<Rightarrow> nm_digest" where
  "format_message t news_items github_items conf_items blog_items =
     \<lparr>m_now = t,
      m_news = map (\<lambda>(i, item). (i, take 60 (hn_title item), hn_points item, hn_url item))
                 (enumerate 1 (take 5 news_items)),
      m_github = map (\<lambda>(i, item). (i, gh_name item, gh_stars item, gh_url item))
                   (enumerate 1 (take 5 github_items)),
      m_conf = map (\<lambda>(i, item). (i, conf_source item, conf_detail item, conf_url item))
                 (enumerate 1 (take 3 conf_items)),
      m_blog = map (\<lambda>(i, item). (i, blog_source item, blog_title item, blog_url item))
                 (enumerate 1 (take 3 blog_items))\<rparr>"

text \<open>
  \<^verbatim>\<open>[n for n in items if n['url'] not in <tracked>]\<close>: the tracked container is looked up
  for each item, so nothing is looked up (and nothing raises) when there is no item.
\<close>

fun new_items :: "('a \<Rightarrow> string) \<Rightarrow> error + json \<Rightarrow> 'a list \<Rightarrow> error + 'a list" where
  "new_items url tracked [] = Inr []"
| "new_items url tracked (n # ns) =
     bind_err tracked (\<lambda>t.
     bind_err (py_contains t (url n)) (\<lambda>seen.
     bind_err (new_items url tracked ns) (\<lambda>rest.
       Inr (if seen then rest else n # rest))))"

definition select_new ::
  "json \<Rightarrow> story list \<Rightarrow> repo list \<Rightarrow> conf_update list \<Rightarrow> post list \<Rightarrow>
     error + (story list \<times> repo list \<times> conf_update list \<times> post list)" where
  "select_new config hn_news gh_repos conf_updates blog_posts =
     bind_err (new_items hn_url (py_getitem config ''tracked_hn'') hn_news) (\<lambda>new_hn.
     bind_err (new_items gh_url (py_getitem config ''tracked_gh'') gh_repos) (\<lambda>new_gh.
     bind_err (new_items conf_url (py_getitem config ''tracked_conf'') conf_updates) (\<lambda>new_conf.
     bind_err (new_items blog_url (py_get config ''tracked_blog'' (JList [])) blog_posts)
       (\<lambda>new_blog. Inr (new_hn, new_gh, new_conf, new_blog)))))"

text \<open>
  \<^verbatim>\<open>config[key].append(u)\<close>: the list inside the dict is changed in place, so the dict
  afterwards holds the longer list under \<open>key\<close>.
\<close>

definition append_under :: "string \<Rightarrow> string \<Rightarrow> json \<Rightarrow> error + json" where
  "append_under key u config =
     bind_err (py_getitem config key) (\<lambda>t.
     bind_err (py_append t u) (\<lambda>t'. py_setitem config key t'))"

fun track_urls :: "string \<Rightarrow> string list \<Rightarrow> json \<Rightarrow> error + json" where
  "track_urls key [] config = Inr config"
| "track_urls key (u # us) config = bind_err (append_under key u config) (track_urls key us)"

fun track_blog :: "string list \<Rightarrow> json \<Rightarrow> error + json" where
  "track_blog [] config = Inr config"
| "track_blog (u # us) config =
     bind_err (py_contains config ''tracked_blog'') (\<lambda>present.
     bind_err (if present then Inr config else py_setitem config ''tracked_blog'' (JList []))
       (\<lambda>config1.
     bind_err (append_under ''tracked_blog'' u config1) (track_blog us)))"

definition update_tracked ::
  "string \<Rightarrow> story list \<Rightarrow> repo list \<Rightarrow> conf_update list \<Rightarrow> post list \<Rightarrow> json \<Rightarrow> error + json" where
  "update_tracked t new_hn new_gh new_conf new_blog config =
     bind_err (track_urls ''tracked_hn'' (map hn_url new_hn) config) (\<lambda>c1.
     bind_err (track_urls ''tracked_gh'' (map gh_url new_gh) c1) (\<lambda>c2.
     bind_err (track_urls ''tracked_conf'' (map conf_url new_conf) c2) (\<lambda>c3.
     bind_err (track_blog (map blog_url new_blog) c3) (\<lambda>c4.
       py_setitem c4 ''last_run'' (JStr t)))))"

definition main_nm :: "store \<Rightarrow> nm_world \<Rightarrow> nm_digest run" where
  "main_nm st w =
     (case load_config st of
        Inl e \<Rightarrow> aborted st [] [Banner] e
      | Inr config \<Rightarrow>
          let hn_news = parse_hacker_news (hn_page w);
              gh_repos = parse_github_trending (gh_page w) (repo_page w);
              conf_updates = parse_conferences (nips_page w) (iclr_page w);
              blog_posts = parse_ai_blogs (blog_page w)
          in (case select_new config hn_news gh_repos conf_updates blog_posts of
                Inl e \<Rightarrow> aborted st [] [Banner] e
              | Inr (new_hn, new_gh, new_conf, new_blog) \<Rightarrow>
                  let found = Found [length new_hn, length new_gh, length new_conf,
                                     length new_blog]
                  in if new_hn \<noteq> [] \<or> new_gh \<noteq> [] \<or> new_conf \<noteq> [] \<or> new_blog \<noteq> [] then
                       let msg = format_message (nm_now w) new_hn new_gh new_conf new_blog;
                           (result, err) = send_to_telegram (nm_gateway w);
                           out = [Banner, found] @ err @
                                 (if truthy result then [Sent_ok] else [Send_failed, Shown msg])
                       in (case update_tracked (nm_now w) new_hn new_gh new_conf new_blog config of
                             Inl e \<Rightarrow> aborted st [msg] out e
                           | Inr config' \<Rightarrow>
                               \<lparr>store_after = save_config config', attempts = [msg],
                                console = out, raised = None\<rparr>)
                     else
                       \<lparr>store_after = st, attempts = [],
                        console = [Banner, found, Nothing_new], raised = None\<rparr>))"

section \<open>paper\_tracker\_v2.py\<close>

definition arxiv_categories :: "string list" where
  "arxiv_categories = [''cs.AI'', ''cs.LG'', ''cs.MA'']"

definition keywords_v2 :: "string list" where
  "keywords_v2 =
     [''agent'', ''multi-agent'', ''collaboration'', ''coordination'',
      ''task planning'', ''llm'', ''reasoning'', ''autonomous'', ''swarm'',
      ''collective'', ''reinforcement'', ''hierarchical'', ''distributed'',
      ''emergent'', ''foundation model'']"

definition max_papers :: nat where
  "max_papers = 20"

text \<open>
  An \<^verbatim>\<open><entry>\<close> of the API's answer as the loop reads it: the group of each
  \<^verbatim>\<open>re.search\<close> (\<open>None\<close> when there is no match) and the author names found.
\<close>

record arxiv_entry =
  id_match :: "string option"
  title_match :: "string option"
  summary_match :: "string option"
  names :: "string list"
  published_match :: "string option"

text \<open>
  One curl call (\<^verbatim>\<open>timeout=30\<close>, no \<^verbatim>\<open>check\<close>, no handler): it runs out
  of time, which raises, or it gives its output, of which the entries are read (none when
  curl failed).
\<close>

datatype fetched = Timeout | Stdout "arxiv_entry list"

record v2_paper =
  v_id :: string
  v_title :: string
  v_summary :: string
  v_authors :: "string list"
  v_published :: string
  v_url :: string
  v_raw_score :: nat
  v_category :: string

definition entry_title :: "arxiv_entry \<Rightarrow> string" where
  "entry_title entry =
     (case title_match entry of Some t \<Rightarrow> strip (newline_to_space t) | None \<Rightarrow> ''No title'')"

definition entry_summary :: "arxiv_entry \<Rightarrow> string" where
  "entry_summary entry =
     (case summary_match entry of Some t \<Rightarrow> strip (newline_to_space t) | None \<Rightarrow> [])"

definition entry_score :: "arxiv_entry \<Rightarrow> nat" where
  "entry_score entry =
     keyword_score keywords_v2 (lower (entry_title entry @ '' '' @ entry_summary entry))"

definition paper_of_entry :: "string \<Rightarrow> arxiv_entry \<Rightarrow> v2_paper option" where
  "paper_of_entry category entry =
     (case id_match entry of
        None \<Rightarrow> None
      | Some raw_id \<Rightarrow>
          let paper_id = hd (split (last (split raw_id ''/abs/'')) ''v'');
              published = (case published_match entry of
                             Some d \<Rightarrow> d | None \<Rightarrow> ''2026-01-01'');
              score = entry_score entry
          in if score > 0
             then Some \<lparr>v_id = paper_id, v_title = entry_title entry,
                        v_summary = take 400 (entry_summary entry),
                        v_authors = take 3 (names entry), v_published = published,
                        v_url = ''https://arxiv.org/abs/'' @ paper_id,
                        v_raw_score = score, v_category = category\<rparr>
             else None)"

fun fetch_all :: "(string \<Rightarrow> fetched) \<Rightarrow> string list \<Rightarrow> error + v2_paper list" where
  "fetch_all feed [] = Inr []"
| "fetch_all feed (category # rest) =
     (case feed category of
        Timeout \<Rightarrow> Inl TimeoutExpired
      | Stdout entries \<Rightarrow>
          bind_err (fetch_all feed rest) (\<lambda>papers.
            Inr (List.map_filter (paper_of_entry category) entries @ papers)))"

fun unique_papers :: "string list \<Rightarrow> v2_paper list \<Rightarrow> v2_paper list" where
  "unique_papers seen [] = []"
| "unique_papers seen (p # ps) =
     (if v_id p \<in> set seen then unique_papers seen ps
      else p # unique_papers (v_id p # seen) ps)"

definition fetch_arxiv_papers :: "(string \<Rightarrow> fetched) \<Rightarrow> error + v2_paper list" where
  "fetch_arxiv_papers feed =
     bind_err (fetch_all feed arxiv_categories) (\<lambda>papers.
       Inr (take max_papers
              (unique_papers []
                 (sort_key (\<lambda>x. (- int (v_raw_score x), v_published x)) papers))))"

text \<open>
  The reviewer's answer, at the shape \<open>REVIEW_PROMPT\<close> asks for, with the defaults of
  \<open>format_briefing\<close> filled in for missing keys. No answer, an unusable one and the empty
  object are \<open>None\<close>.
\<close>

record item_review =
  r_id :: string
  r_should_read :: string
  r_tags :: "string list"
  r_key_insight :: string

record review =
  rv_summary :: string
  rv_reviews :: "item_review list"

text \<open>
  A line of the briefing. With a review: the stars of the icon, the title, the date, the
  category, the tags, the insight and the link; without: the stars, the title, the date and
  the link.
\<close>

datatype brief_line =
    Reviewed_line nat string string string "string list" string string
  | Raw_line nat string string string

record briefing =
  b_papers :: nat
  b_summary :: "string option"
  b_lines :: "brief_line list"

text \<open>
  \<^verbatim>\<open>{r['id']: r for r in reviews}.get(paper_id, {})\<close>: the last review of that id, or
  the defaults.
\<close>

definition review_of :: "item_review list \<Rightarrow> string \<Rightarrow> item_review" where
  "review_of reviews paper_id =
     (case find (\<lambda>r. r_id r = paper_id) (rev reviews) of
        Some r \<Rightarrow> r
      | None \<Rightarrow> \<lparr>r_id = paper_id, r_should_read = ''maybe'', r_tags = [], r_key_insight = []\<rparr>)"

definition format_briefing :: "v2_paper list \<Rightarrow> review option \<Rightarrow> briefing option" where
  "format_briefing papers review_result =
     (if papers = [] then None
      else Some
        (case review_result of
           Some rv \<Rightarrow>
             \<lparr>b_papers = length papers, b_summary = Some (rv_summary rv),
              b_lines =
                map (\<lambda>paper.
                       let r = review_of (rv_reviews rv) (v_id paper);
                           icon = (if r_should_read r = ''yes'' then 3
                                   else if r_should_read r = ''maybe'' then 1 else 0)
                       in Reviewed_line icon (take 70 (v_title paper)) (v_published paper)
                            (v_category paper) (r_tags r) (take 100 (r_key_insight r))
                            (v_url paper))
                  papers\<rparr>
         | None \<Rightarrow>
             \<lparr>b_papers = length papers, b_summary = None,
              b_lines =
                map (\<lambda>paper. Raw_line (min (v_raw_score paper) 5) (take 60 (v_title paper))
                                (v_published paper) (v_url paper))
                  (take 5 papers)\<rparr>))"

record v2_world =
  feed :: "string \<Rightarrow> fetched"
  reviewer :: "v2_paper list \<Rightarrow> review option"
  delivered :: bool

text \<open>The script keeps no file: a run leaves messages, printed lines and maybe an exception.\<close>

record v2_run =
  v2_attempts :: "briefing list"
  v2_console :: "briefing line list"
  v2_raised :: "error option"

definition main_v2 :: "v2_world \<Rightarrow> v2_run" where
  "main_v2 w =
     (case fetch_arxiv_papers (feed w) of
        Inl e \<Rightarrow> \<lparr>v2_attempts = [], v2_console = [Banner], v2_raised = Some e\<rparr>
      | Inr papers \<Rightarrow>
          if papers = [] then
            \<lparr>v2_attempts = [], v2_console = [Banner, Found [0], Nothing_new], v2_raised = None\<rparr>
          else
            let review_result = reviewer w papers;
                reviewed = (case review_result of Some rv \<Rightarrow> Review_done
                            | None \<Rightarrow> Review_unavailable)
            in (case format_briefing papers review_result of
                  None \<Rightarrow>
                    \<lparr>v2_attempts = [],
                     v2_console = [Banner, Found [length papers], reviewed, Send_failed],
                     v2_raised = Some TypeError\<rparr>
                | Some b \<Rightarrow>
                    \<lparr>v2_attempts = [b],
                     v2_console = [Banner, Found [length papers], reviewed] @
                                  (if delivered w then [Sent_ok]
                                   else [Gateway_error, Send_failed, Shown b]),
                     v2_raised = None\<rparr>))"

section \<open>What a run shows\<close>

text \<open>
  The digests of a run are the messages it handed to the gateway and the ones it printed.
  The later runs of \<open>paper_tracker.py\<close> start from the file the run before left.
\<close>

definition shown :: "'d line list \<Rightarrow> 'd list" where
  "shown out = List.map_filter (\<lambda>l. case l of Shown d \<Rightarrow> Some d | _ \<Rightarrow> None) out"

definition digests :: "'d run \<Rightarrow> 'd list" where
  "digests r = attempts r @ shown (console r)"

definition links_shown :: "digest run \<Rightarrow> string list" where
  "links_shown r = map e_link (concat (map d_entries (digests r)))"

definition stars_shown :: "digest run \<Rightarrow> nat list" where
  "stars_shown r = map e_stars (concat (map d_entries (digests r)))"

fun runs_pt :: "store \<Rightarrow> pt_world list \<Rightarrow> digest run list" where
  "runs_pt st [] = []"
| "runs_pt st (w # ws) = main_pt st w # runs_pt (store_after (main_pt st w)) ws"

fun final_store :: "store \<Rightarrow> pt_world list \<Rightarrow> store" where
  "final_store st [] = st"
| "final_store st (w # ws) = final_store (store_after (main_pt st w)) ws"

definition v2_digests :: "v2_run \<Rightarrow> briefing list" where
  "v2_digests r = v2_attempts r @ shown (v2_console r)"

fun line_url :: "brief_line \<Rightarrow> string" where
  "line_url (Reviewed_line icon title published category tags insight url) = url"
| "line_url (Raw_line stars title published url) = url"

definition urls_shown :: "v2_run \<Rightarrow> string list" where
  "urls_shown r = map line_url (concat (map b_lines (v2_digests r)))"

text \<open>
  \<open>news_monitor.py\<close>: the container a category's identifiers are looked up in (the blog
  category with \<^verbatim>\<open>config.get\<close>, the others with \<^verbatim>\<open>config[key]\<close>), what it means
  for an identifier to be tracked under a category, the items a run selects, and the links
  its digests show for a category.
\<close>

definition categories :: "string list" where
  "categories = [''tracked_hn'', ''tracked_gh'', ''tracked_conf'', ''tracked_blog'']"

definition tracked_under :: "json \<Rightarrow> string \<Rightarrow> error + json" where
  "tracked_under config key =
     (if key = ''tracked_blog'' then py_get config key (JList []) else py_getitem config key)"

definition seen_in :: "error + json \<Rightarrow> string \<Rightarrow> bool" where
  "seen_in tracked u = (case tracked of Inl e \<Rightarrow> False | Inr t \<Rightarrow> py_contains t u = Inr True)"

definition is_tracked :: "json \<Rightarrow> string \<Rightarrow> string \<Rightarrow> bool" where
  "is_tracked config key u = seen_in (tracked_under config key) u"

definition candidates :: "string \<Rightarrow> nm_world \<Rightarrow> string list" where
  "candidates key w =
     (if key = ''tracked_hn'' then map hn_url (parse_hacker_news (hn_page w))
      else if key = ''tracked_gh'' then map gh_url (parse_github_trending (gh_page w) (repo_page w))
      else if key = ''tracked_conf'' then map conf_url (parse_conferences (nips_page w) (iclr_page w))
      else if key = ''tracked_blog'' then map blog_url (parse_ai_blogs (blog_page w))
      else [])"

definition nm_select ::
  "json \<Rightarrow> nm_world \<Rightarrow> error + (story list \<times> repo list \<times> conf_update list \<times> post list)" where
  "nm_select config w =
     select_new config (parse_hacker_news (hn_page w))
       (parse_github_trending (gh_page w) (repo_page w))
       (parse_conferences (nips_page w) (iclr_page w))
       (parse_ai_blogs (blog_page w))"

definition selected_urls ::
  "string \<Rightarrow> story list \<times> repo list \<times> conf_update list \<times> post list \<Rightarrow> string list" where
  "selected_urls key sel =
     (case sel of (new_hn, new_gh, new_conf, new_blog) \<Rightarrow>
        if key = ''tracked_hn'' then map hn_url new_hn
        else if key = ''tracked_gh'' then map gh_url new_gh
        else if key = ''tracked_conf'' then map conf_url new_conf
        else if key = ''tracked_blog'' then map blog_url new_blog
        else [])"

definition urls_under :: "string \<Rightarrow> nm_digest \<Rightarrow> string list" where
  "urls_under key d =
     (if key = ''tracked_hn'' then map (\<lambda>(i, title, points, url). url) (m_news d)
      else if key = ''tracked_gh'' then map (\<lambda>(i, name, stars, url). url) (m_github d)
      else if key = ''tracked_conf'' then map (\<lambda>(i, source, detail, url). url) (m_conf d)
      else if key = ''tracked_blog'' then map (\<lambda>(i, source, title, url). url) (m_blog d)
      else [])"

definition nm_urls_shown :: "string \<Rightarrow> nm_digest run \<Rightarrow> string list" where
  "nm_urls_shown key r = concat (map (urls_under key) (digests r))"

text \<open>What a run of \<open>news_monitor.py\<close> that selected something has printed.\<close>

definition nm_console :: "nm_world \<Rightarrow> story list \<times> repo list \<times> conf_update list \<times> post list \<Rightarrow>
    nm_digest line list" where
  "nm_console w sel =
     (case sel of (a, b, c, d) \<Rightarrow>
        [Banner, Found [length a, length b, length c, length d]] @
        snd (send_to_telegram (nm_gateway w)) @
        (if truthy (nm_gateway w) then [Sent_ok]
         else [Send_failed, Shown (format_message (nm_now w) a b c d)]))"

text \<open>
  A tracking state of the shape \<open>news_monitor.py\<close> writes: a dict whose category keys hold
  lists (the blog key may be missing, as in files written before the blog category existed).
\<close>

definition wf_config :: "json \<Rightarrow> bool" where
  "wf_config config =
     (case config of
        JDict kvs \<Rightarrow>
          list_all (\<lambda>key. case map_of kvs key of
                             Some (JList xs) \<Rightarrow> True
                           | Some other \<Rightarrow> False
                           | None \<Rightarrow> key = ''tracked_blog'')
            categories
      | other \<Rightarrow> False)"

text \<open>Successive runs of \<open>news_monitor.py\<close>, each starting from the file the run before left.\<close>

fun runs_nm :: "store \<Rightarrow> nm_world list \<Rightarrow> nm_digest run list" where
  "runs_nm st [] = []"
| "runs_nm st (w # ws) = main_nm st w # runs_nm (store_after (main_nm st w)) ws"

fun final_store_nm :: "store \<Rightarrow> nm_world list \<Rightarrow> store" where
  "final_store_nm st [] = st"
| "final_store_nm st (w # ws) = final_store_nm (store_after (main_nm st w)) ws"

text \<open>The items of a dict as a map; nothing for a value that is no dict.\<close>

definition dict_map :: "json \<Rightarrow> (string \<rightharpoonup> json) option" where
  "dict_map config = (case config of JDict kvs \<Rightarrow> Some (map_of kvs) | _ \<Rightarrow> None)"

text \<open>A set read from the tracking file: no element twice, every element hashable.\<close>

definition wf_set :: "json list \<Rightarrow> bool" where
  "wf_set s = (distinct (map py_key s) \<and> list_all hashable s)"

section \<open>Sample inputs\<close>

text \<open>Concrete inputs at which the properties below are evaluated.\<close>

definition sample_page :: arxiv_page where
  "sample_page =
     \<lparr>found_ids = [''2601.00002'', ''2601.00001'', ''2601.00003''],
      found_titles = ['' LLM agents in the swarm'', ''Agent Planning'', ''Graph colouring''],
      found_abstracts = []\<rparr>"

definition sample_world :: pt_world where
  "sample_world = \<lparr>arxiv = Some sample_page, gateway = None, now = ''2026-01-07T08:00:00''\<rparr>"

definition plain_paper :: paper where
  "plain_paper =
     \<lparr>p_id = ''2601.00003'', p_link = ''https://arxiv.org/2601.00003'',
      p_title = ''Graph colouring'', p_abstract = [], p_score = 0\<rparr>"

definition entry_a :: arxiv_entry where
  "entry_a =
     \<lparr>id_match = Some ''http://arxiv.org/abs/2601.00003v1'', title_match = Some ''Agent A'',
      summary_match = None, names = [], published_match = Some ''2026-01-06''\<rparr>"

definition entry_b :: arxiv_entry where
  "entry_b =
     \<lparr>id_match = Some ''http://arxiv.org/abs/2601.00002v2'', title_match = Some ''Agent B'',
      summary_match = None, names = [], published_match = Some ''2026-01-05''\<rparr>"

definition entry_c :: arxiv_entry where
  "entry_c =
     \<lparr>id_match = Some ''http://arxiv.org/abs/2601.00001v1'', title_match = Some ''Agent C'',
      summary_match = None, names = [], published_match = Some ''2026-01-05''\<rparr>"

definition entry_plain :: arxiv_entry where
  "entry_plain =
     \<lparr>id_match = Some ''http://arxiv.org/abs/2601.00004v1'',
      title_match = Some ''Graph colouring'', summary_match = None, names = [],
      published_match = Some ''2026-01-06''\<rparr>"

definition sample_feed :: "string \<Rightarrow> fetched" where
  "sample_feed category =
     (if category = ''cs.AI'' then Stdout [entry_a, entry_b, entry_c, entry_plain]
      else Stdout [])"

definition sample_v2_world :: v2_world where
  "sample_v2_world = \<lparr>feed = sample_feed, reviewer = (\<lambda>papers. None), delivered = False\<rparr>"

definition busy_page :: arxiv_page where
  "busy_page =
     \<lparr>found_ids = [''2601.00001'', ''2601.00002'', ''2601.00003'', ''2601.00004'',
                   ''2601.00005'', ''2601.00006'', ''2601.00007''],
      found_titles = [''Agent one'', ''Swarm agent two'', ''Agent three'', ''Agent four'',
                      ''LLM agent swarm five'', ''Agent six'', ''Agent seven''],
      found_abstracts = []\<rparr>"

definition busy_world :: pt_world where
  "busy_world = \<lparr>arxiv = Some busy_page, gateway = Some ''ok'', now = ''2026-01-08T08:00:00''\<rparr>"

definition paper_seven :: paper where
  "paper_seven =
     \<lparr>p_id = ''2601.00007'', p_link = ''https://arxiv.org/2601.00007'',
      p_title = ''Agent seven'', p_abstract = [], p_score = 1\<rparr>"

definition sample_paper_store :: store where
  "sample_paper_store =
     Some (Json (JDict [(''tracked'', JList [JStr ''2601.00002'']),
                        (''last_run'', JStr ''2026-01-06T08:00:00'')]))"

definition sample_web :: nm_world where
  "sample_web =
     \<lparr>hn_page = Some [(''item?id=1'', ''New LLM agent framework'', 120),
                      (''https://example.org/gpt'', ''GPT internals'', 80)],
      gh_page = None, repo_page = (\<lambda>repo_url. None),
      nips_page = Some ''Paper submission deadline: May 15'', iclr_page = None,
      blog_page = (\<lambda>url. None), nm_gateway = None, nm_now = ''01-07 08:00''\<rparr>"

definition quiet_web :: nm_world where
  "quiet_web =
     \<lparr>hn_page = None, gh_page = None, repo_page = (\<lambda>repo_url. None),
      nips_page = None, iclr_page = None, blog_page = (\<lambda>url. None),
      nm_gateway = Some ''ok'', nm_now = ''01-07 09:00''\<rparr>"

definition sample_news_config :: json where
  "sample_news_config =
     JDict [(''tracked_hn'', JList [JStr ''https://example.org/gpt'']),
            (''tracked_gh'', JList []), (''tracked_conf'', JList []), (''last_run'', JNull)]"

definition sample_news_store :: store where
  "sample_news_store = Some (Json sample_news_config)"


definition lone_page :: arxiv_page where
  "lone_page = \<lparr>found_ids = [''2601.00002'', ''2601.00003''],
                 found_titles = [''LLM agents in the swarm'', ''Graph colouring''],
                 found_abstracts = []\<rparr>"

section \<open>Rankings\<close>

text \<open>
  The order \<open>paper_tracker.py\<close> sorts by (score descending, then identifier ascending), the
  order \<open>paper_tracker_v2.py\<close> sorts by (score descending, then publish date ascending), and
  the two orders the specification names for a source with publish dates.
\<close>

definition by_score_then_id :: "paper \<Rightarrow> paper \<Rightarrow> bool" where
  "by_score_then_id p q =
     (p_score q < p_score p \<or> (p_score p = p_score q \<and> p_id p \<le> p_id q))"

definition by_score_then_oldest :: "v2_paper \<Rightarrow> v2_paper \<Rightarrow> bool" where
  "by_score_then_oldest p q =
     (v_raw_score q < v_raw_score p \<or>
      (v_raw_score p = v_raw_score q \<and> v_published p \<le> v_published q))"

definition by_score_then_newest_then_id :: "v2_paper \<Rightarrow> v2_paper \<Rightarrow> bool" where
  "by_score_then_newest_then_id p q =
     (v_raw_score q < v_raw_score p \<or>
      (v_raw_score p = v_raw_score q \<and>
       (v_published q < v_published p \<or> (v_published p = v_published q \<and> v_id p \<le> v_id q))))"

definition by_score_then_id_v2 :: "v2_paper \<Rightarrow> v2_paper \<Rightarrow> bool" where
  "by_score_then_id_v2 p q =
     (v_raw_score q < v_raw_score p \<or> (v_raw_score p = v_raw_score q \<and> v_id p \<le> v_id q))"

definition sample_ranked :: "v2_paper list" where
  "sample_ranked =
     [\<lparr>v_id = ''2601.00002'', v_title = ''Agent B'', v_summary = [], v_authors = [],
       v_published = ''2026-01-05'', v_url = ''https://arxiv.org/abs/2601.00002'',
       v_raw_score = 1, v_category = ''cs.AI''\<rparr>,
      \<lparr>v_id = ''2601.00001'', v_title = ''Agent C'', v_summary = [], v_authors = [],
       v_published = ''2026-01-05'', v_url = ''https://arxiv.org/abs/2601.00001'',
       v_raw_score = 1, v_category = ''cs.AI''\<rparr>,
      \<lparr>v_id = ''2601.00003'', v_title = ''Agent A'', v_summary = [], v_authors = [],
       v_published = ''2026-01-06'', v_url = ''https://arxiv.org/abs/2601.00003'',
       v_raw_score = 1, v_category = ''cs.AI''\<rparr>]"

section \<open>Properties\<close>

subsection \<open>paper\_tracker.py: selection, digests and the tracking file\<close>

lemma set_relevant:
  "set (relevant tracked papers) =
     {p \<in> set papers. 0 < p_score p \<and> \<not> py_in (JStr (p_id p)) tracked}"
  by (auto simp: relevant_def)

lemma parse_papers_link: "p \<in> set (parse_papers html) \<Longrightarrow> p_link p = arxiv_link (p_id p)"
  by (auto simp: parse_papers_def Let_def)

lemma arxiv_link_inj: "arxiv_link a = arxiv_link b \<longleftrightarrow> a = b"
  by (simp add: arxiv_link_def)

lemma shown_simps [simp]:
  "shown [] = []"
  "shown (Shown d # out) = d # shown out"
  "shown (Banner # out) = shown out"
  "shown (Found ns # out) = shown out"
  "shown (Sent_ok # out) = shown out"
  "shown (Send_failed # out) = shown out"
  "shown (Gateway_error # out) = shown out"
  "shown (Nothing_new # out) = shown out"
  "shown (Review_done # out) = shown out"
  "shown (Review_unavailable # out) = shown out"
  by (simp_all add: shown_def List.map_filter_simps)

lemma shown_append [simp]: "shown (a @ b) = shown a @ shown b"
  by (simp add: shown_def List.map_filter_def)

lemma send_to_telegram_cases:
  "send_to_telegram g = (None, [Gateway_error]) \<and> g = None \<or>
   (\<exists>body. send_to_telegram g = (Some body, []) \<and> g = Some body)"
  by (cases g) (simp_all add: send_to_telegram_def)

lemma main_pt_cases [consumes 0, case_names load_error fetch_error nothing_new selected]:
  obtains
    e where "load_tracked st = Inl e" "main_pt st w = aborted st [] [Banner] e"
  | tracked last_run where "load_tracked st = Inr (tracked, last_run)" "arxiv w = None"
      "main_pt st w = aborted st [] [Banner] CalledProcessError"
  | tracked last_run html where "load_tracked st = Inr (tracked, last_run)" "arxiv w = Some html"
      "relevant tracked (parse_papers html) = []"
      "main_pt st w = \<lparr>store_after = st, attempts = [],
                        console = [Banner, Found [0], Nothing_new], raised = None\<rparr>"
  | tracked last_run html rel where "load_tracked st = Inr (tracked, last_run)" "arxiv w = Some html"
      "rel = relevant tracked (parse_papers html)" "rel \<noteq> []"
      "main_pt st w =
         \<lparr>store_after = save_tracked (track tracked rel) (now w),
          attempts = [message (now w) rel],
          console = [Banner, Found [length rel]] @ snd (send_to_telegram (gateway w)) @
                    (if truthy (gateway w) then [Sent_ok]
                     else [Send_failed, Shown (message (now w) rel)]),
          raised = None\<rparr>"
proof (cases "load_tracked st")
  case (Inl e)
  then show ?thesis using that(1) by (simp add: main_pt_def)
next
  case (Inr tl)
  obtain tracked last_run where tl: "tl = (tracked, last_run)" by (cases tl)
  show ?thesis
  proof (cases "arxiv w")
    case None
    then show ?thesis using that(2) Inr tl by (simp add: main_pt_def fetch_arxiv_list_def)
  next
    case (Some html)
    show ?thesis
    proof (cases "relevant tracked (parse_papers html) = []")
      case True
      then show ?thesis using that(3) Inr tl Some
        by (simp add: main_pt_def fetch_arxiv_list_def)
    next
      case False
      have "fst (send_to_telegram (gateway w) :: string option \<times> digest line list) = gateway w"
        by (cases "gateway w") (simp_all add: send_to_telegram_def)
      then show ?thesis using that(4)[OF _ Some refl False] Inr tl Some False
        by (simp add: main_pt_def fetch_arxiv_list_def Let_def split_beta)
    qed
  qed
qed


lemma py_in_add: "py_in x (py_set_add s y) \<longleftrightarrow> py_in x s \<or> py_key x = py_key y"
  by (auto simp: py_in_def py_set_add_def)

lemma wf_set_add: "wf_set s \<Longrightarrow> hashable y \<Longrightarrow> wf_set (py_set_add s y)"
  by (auto simp: wf_set_def py_set_add_def py_in_def)

lemma py_in_fold_add:
  "py_in x (fold (\<lambda>y s. py_set_add s y) ys s) \<longleftrightarrow> py_in x s \<or> py_key x \<in> py_key ` set ys"
  by (induction ys arbitrary: s) (auto simp: py_in_add)

lemma wf_set_fold_add:
  "wf_set s \<Longrightarrow> list_all hashable ys \<Longrightarrow> wf_set (fold (\<lambda>y s. py_set_add s y) ys s)"
  by (induction ys arbitrary: s) (auto simp: wf_set_add)

lemma fold_add_distinct:
  "distinct (map py_key (s @ ys)) \<Longrightarrow> fold (\<lambda>y s. py_set_add s y) ys s = s @ ys"
proof (induction ys arbitrary: s)
  case Nil
  then show ?case by simp
next
  case (Cons y ys)
  have "\<not> py_in y s" using Cons.prems by (auto simp: py_in_def)
  then have "py_set_add s y = s @ [y]" by (simp add: py_set_add_def)
  moreover have "distinct (map py_key ((s @ [y]) @ ys))" using Cons.prems by simp
  ultimately show ?case using Cons.IH[of "s @ [y]"] by simp
qed

lemma wf_set_Nil [simp]: "wf_set []"
  by (simp add: wf_set_def)

lemma py_set_wf: "py_set j = Inr s \<Longrightarrow> wf_set s"
  unfolding py_set_def
  by (auto split: sum.splits if_splits intro!: wf_set_fold_add)

lemma py_set_list: "wf_set s \<Longrightarrow> py_set (JList s) = Inr s"
  using fold_add_distinct[of "[]" s] by (simp add: py_set_def wf_set_def)

lemma load_tracked_wf: "load_tracked st = Inr (tracked, last_run) \<Longrightarrow> wf_set tracked"
  by (induction st rule: load_tracked.induct) (auto split: sum.splits dest: py_set_wf)

lemma py_in_track:
  "py_in x (track tracked rel) \<longleftrightarrow> py_in x tracked \<or> py_key x \<in> (\<lambda>p. JStr (p_id p)) ` set rel"
proof -
  have "track tracked rel = fold (\<lambda>y s. py_set_add s y) (map (\<lambda>p. JStr (p_id p)) rel) tracked"
    by (simp add: track_def fold_map comp_def)
  then show ?thesis by (simp add: py_in_fold_add image_image)
qed

lemma wf_set_track: "wf_set tracked \<Longrightarrow> wf_set (track tracked rel)"
proof -
  have "track tracked rel = fold (\<lambda>y s. py_set_add s y) (map (\<lambda>p. JStr (p_id p)) rel) tracked"
    by (simp add: track_def fold_map comp_def)
  moreover have "list_all hashable (map (\<lambda>p. JStr (p_id p)) rel)"
    by (simp add: list_all_iff)
  ultimately show "wf_set tracked \<Longrightarrow> wf_set (track tracked rel)"
    by (simp add: wf_set_fold_add)
qed

lemma load_save_tracked:
  "wf_set tracked \<Longrightarrow> load_tracked (save_tracked tracked t) = Inr (tracked, JStr t)"
  by (simp add: save_tracked_def dict_get_def py_set_list)



lemma pt_digests:
  "d \<in> set (digests (main_pt st w)) \<Longrightarrow>
     \<exists>tracked last_run html. load_tracked st = Inr (tracked, last_run) \<and> arxiv w = Some html \<and>
        relevant tracked (parse_papers html) \<noteq> [] \<and>
        d = message (now w) (relevant tracked (parse_papers html))"
  by (cases rule: main_pt_cases[of st w])
     (auto simp: digests_def aborted_def send_to_telegram_def split: option.splits if_splits)

lemma message_entries:
  "e \<in> set (d_entries (message t rel)) \<Longrightarrow>
     \<exists>p \<in> set (take 5 rel). e_link e = p_link p \<and> e_stars e = p_score p"
proof -
  assume "e \<in> set (d_entries (message t rel))"
  then obtain ip where ip: "ip \<in> set (enumerate 1 (take 5 rel))"
    and e: "e_link e = p_link (snd ip)" "e_stars e = p_score (snd ip)"
    by (auto simp: message_def)
  have "snd ip \<in> set (map snd (enumerate 1 (take 5 rel)))" using ip by (simp del: map_snd_enumerate)
  then have "snd ip \<in> set (take 5 rel)" by simp
  with e show ?thesis by blast
qed

lemma message_links: "map e_link (d_entries (message t rel)) = map p_link (take 5 rel)"
  by (simp add: message_def comp_def split_beta flip: map_map[of p_link snd, unfolded comp_def])

lemma pt_links_shown:
  "l \<in> set (links_shown (main_pt st w)) \<Longrightarrow>
     \<exists>tracked last_run html p. load_tracked st = Inr (tracked, last_run) \<and> arxiv w = Some html \<and>
        p \<in> set (take 5 (relevant tracked (parse_papers html))) \<and> l = arxiv_link (p_id p)"
proof -
  assume "l \<in> set (links_shown (main_pt st w))"
  then obtain d e where d: "d \<in> set (digests (main_pt st w))" and e: "e \<in> set (d_entries d)"
    and l: "l = e_link e"
    by (auto simp: links_shown_def)
  from pt_digests[OF d] obtain tracked last_run html where
    L: "load_tracked st = Inr (tracked, last_run)" and A: "arxiv w = Some html" and
    D: "d = message (now w) (relevant tracked (parse_papers html))" by blast
  from message_entries[OF e[unfolded D]] obtain p where
    p: "p \<in> set (take 5 (relevant tracked (parse_papers html)))" and pl: "e_link e = p_link p"
    by blast
  have "p \<in> set (parse_papers html)" using p set_relevant[of tracked "parse_papers html"]
    by (auto dest: in_set_takeD)
  then have "p_link p = arxiv_link (p_id p)" by (rule parse_papers_link)
  with L A p pl l show ?thesis by auto
qed

lemma pt_tracked_not_shown:
  assumes "load_tracked st = Inr (tracked, last_run)" and "py_in (JStr i) tracked"
  shows "arxiv_link i \<notin> set (links_shown (main_pt st w))"
proof
  assume "arxiv_link i \<in> set (links_shown (main_pt st w))"
  from pt_links_shown[OF this] assms(1) obtain html p where
    p: "p \<in> set (take 5 (relevant tracked (parse_papers html)))" and "arxiv_link i = arxiv_link (p_id p)"
    by auto
  then have "p_id p = i" by (simp add: arxiv_link_inj)
  moreover have "\<not> py_in (JStr (p_id p)) tracked"
    using p set_relevant[of tracked "parse_papers html"] by (auto dest: in_set_takeD)
  ultimately show False using assms(2) by simp
qed

lemma pt_stars_positive: "0 \<notin> set (stars_shown (main_pt st w))"
proof
  assume "0 \<in> set (stars_shown (main_pt st w))"
  then obtain d e where d: "d \<in> set (digests (main_pt st w))" and e: "e \<in> set (d_entries d)"
    and z: "e_stars e = 0"
    by (auto simp: stars_shown_def)
  from pt_digests[OF d] obtain tracked html where
    D: "d = message (now w) (relevant tracked (parse_papers html))" by blast
  from message_entries[OF e[unfolded D]] obtain p where
    p: "p \<in> set (take 5 (relevant tracked (parse_papers html)))" and "e_stars e = p_score p"
    by blast
  moreover have "0 < p_score p" using p set_relevant[of tracked "parse_papers html"]
    by (auto dest: in_set_takeD)
  ultimately show False using z by simp
qed

lemma pt_store_after:
  assumes "load_tracked st = Inr (tracked, last_run)"
  shows "\<exists>tracked' last_run'. load_tracked (store_after (main_pt st w)) = Inr (tracked', last_run') \<and>
           (\<forall>x. py_in x tracked \<longrightarrow> py_in x tracked') \<and>
           (\<forall>html. arxiv w = Some html \<longrightarrow>
              (\<forall>p \<in> set (relevant tracked (parse_papers html)). py_in (JStr (p_id p)) tracked'))"
proof (cases rule: main_pt_cases[of st w])
  case (load_error e)
  then show ?thesis using assms by simp
next
  case (fetch_error tracked last_run)
  then show ?thesis using assms by (simp add: aborted_def)
next
  case (nothing_new tracked last_run html)
  then show ?thesis using assms by simp
next
  case (selected tracked0 last_run0 html rel)
  have "wf_set (track tracked rel)" using load_tracked_wf[OF assms] by (rule wf_set_track)
  then have "load_tracked (save_tracked (track tracked rel) (now w)) = Inr (track tracked rel, JStr (now w))"
    by (rule load_save_tracked)
  then show ?thesis using selected assms by (auto simp: py_in_track)
qed

lemma pt_failed_load_store: "load_tracked st = Inl e \<Longrightarrow> store_after (main_pt st w) = st"
  by (simp add: main_pt_def aborted_def)

subsection \<open>paper\_tracker\_v2.py: fetched papers and briefings\<close>

lemma paper_of_entry_score:
  "paper_of_entry category e = Some p \<Longrightarrow> v_raw_score p = entry_score e \<and> 0 < entry_score e"
  by (auto simp: paper_of_entry_def Let_def split: option.splits if_splits)

lemma paper_of_entry_zero: "entry_score e = 0 \<Longrightarrow> paper_of_entry category e = None"
  by (simp add: paper_of_entry_def Let_def split: option.splits)

lemma paper_of_entry_pos: "paper_of_entry category e = Some p \<Longrightarrow> 0 < v_raw_score p"
  using paper_of_entry_score by simp

lemma in_map_filter: "y \<in> set (List.map_filter f xs) \<longleftrightarrow> (\<exists>x \<in> set xs. f x = Some y)"
  by (induction xs) (auto split: option.splits)

lemma fetch_all_scores: "fetch_all fd cs = Inr ps \<Longrightarrow> p \<in> set ps \<Longrightarrow> 0 < v_raw_score p"
proof (induction cs arbitrary: ps)
  case Nil
  then show ?case by simp
next
  case (Cons c cs)
  from Cons.prems(1) obtain entries rest where f: "fd c = Stdout entries"
    and r: "fetch_all fd cs = Inr rest"
    and ps: "ps = List.map_filter (paper_of_entry c) entries @ rest"
    by (auto simp: bind_err_def split: fetched.splits sum.splits)
  from Cons.prems(2) ps consider "p \<in> set (List.map_filter (paper_of_entry c) entries)" | "p \<in> set rest"
    by auto
  then show ?case
  proof cases
    case 1
    then obtain e where "paper_of_entry c e = Some p" by (auto simp: in_map_filter)
    then show ?thesis by (rule paper_of_entry_pos)
  next
    case 2
    with Cons.IH[OF r] show ?thesis .
  qed
qed

lemma set_unique_papers: "set (unique_papers seen ps) \<subseteq> set ps"
  by (induction seen ps rule: unique_papers.induct) auto

lemma fetch_arxiv_papers_scores:
  assumes "fetch_arxiv_papers fd = Inr ps" and "p \<in> set ps"
  shows "0 < v_raw_score p"
proof -
  from assms(1) obtain qs where q: "fetch_all fd arxiv_categories = Inr qs"
    and ps: "ps = take max_papers (unique_papers [] (sort_key (\<lambda>x. (- int (v_raw_score x), v_published x)) qs))"
    by (auto simp: fetch_arxiv_papers_def bind_err_def split: sum.splits)
  have "p \<in> set (unique_papers [] (sort_key (\<lambda>x. (- int (v_raw_score x), v_published x)) qs))"
    using assms(2) unfolding ps by (rule in_set_takeD)
  then have "p \<in> set qs" using set_unique_papers by fastforce
  with q show ?thesis by (rule fetch_all_scores)
qed

lemma main_v2_digests:
  "b \<in> set (v2_digests (main_v2 w)) \<Longrightarrow>
     \<exists>ps. fetch_arxiv_papers (feed w) = Inr ps \<and> ps \<noteq> [] \<and>
          format_briefing ps (reviewer w ps) = Some b"
  by (auto simp: main_v2_def v2_digests_def Let_def split: sum.splits if_splits option.splits)

lemma format_briefing_lines:
  "format_briefing ps rv = Some b \<Longrightarrow> l \<in> set (b_lines b) \<Longrightarrow> \<exists>p \<in> set ps. line_url l = v_url p"
  by (cases rv) (auto simp: format_briefing_def Let_def split: if_splits dest!: in_set_takeD, blast+)

lemma v2_urls_shown:
  assumes "l \<in> set (urls_shown (main_v2 w))"
  shows "\<exists>ps p. fetch_arxiv_papers (feed w) = Inr ps \<and> p \<in> set ps \<and> l = v_url p \<and>
           0 < v_raw_score p"
proof -
  from assms obtain b ln where b: "b \<in> set (v2_digests (main_v2 w))"
    and ln: "ln \<in> set (b_lines b)" and l: "l = line_url ln"
    by (auto simp: urls_shown_def)
  from main_v2_digests[OF b] obtain ps where ps: "fetch_arxiv_papers (feed w) = Inr ps"
    and fb: "format_briefing ps (reviewer w ps) = Some b" by blast
  from format_briefing_lines[OF fb ln] obtain p where p: "p \<in> set ps" "line_url ln = v_url p"
    by blast
  with ps l fetch_arxiv_papers_scores[OF ps p(1)] show ?thesis by blast
qed

subsection \<open>paper\_tracker.py: successive runs\<close>

lemma pt_nothing_new:
  assumes "load_tracked st = Inr (tracked, last_run)" and "arxiv w = Some html"
    and "relevant tracked (parse_papers html) = []"
  shows "main_pt st w = \<lparr>store_after = st, attempts = [],
                        console = [Banner, Found [0], Nothing_new], raised = None\<rparr>"
  using assms by (simp add: main_pt_def fetch_arxiv_list_def)



lemma runs_never_show:
  assumes "load_tracked st = Inr (tracked, last_run)" and "py_in (JStr i) tracked"
    and "r \<in> set (runs_pt st ws)"
  shows "arxiv_link i \<notin> set (links_shown r)"
  using assms
proof (induction ws arbitrary: st tracked last_run)
  case Nil
  then show ?case by simp
next
  case (Cons w ws)
  from pt_store_after[OF Cons.prems(1), of w] obtain tracked' last_run' where
    L: "load_tracked (store_after (main_pt st w)) = Inr (tracked', last_run')"
    and M: "py_in (JStr i) tracked'" using Cons.prems(2) by blast
  from Cons.prems(3) consider "r = main_pt st w" | "r \<in> set (runs_pt (store_after (main_pt st w)) ws)"
    by auto
  then show ?case
  proof cases
    case 1
    then show ?thesis using pt_tracked_not_shown[OF Cons.prems(1,2)] by simp
  next
    case 2
    then show ?thesis using Cons.IH[OF L M] by simp
  qed
qed

lemma pt_shown_is_tracked:
  assumes "arxiv_link i \<in> set (links_shown (main_pt st w))"
  shows "\<exists>tracked' last_run'. load_tracked (store_after (main_pt st w)) = Inr (tracked', last_run') \<and>
           py_in (JStr i) tracked'"
proof -
  from pt_links_shown[OF assms] obtain tracked last_run html p where
    L: "load_tracked st = Inr (tracked, last_run)" and A: "arxiv w = Some html" and
    p: "p \<in> set (take 5 (relevant tracked (parse_papers html)))" and
    i: "arxiv_link i = arxiv_link (p_id p)" by blast
  have "p \<in> set (relevant tracked (parse_papers html))" using p by (rule in_set_takeD)
  moreover have "p_id p = i" using i by (simp add: arxiv_link_inj)
  ultimately show ?thesis using pt_store_after[OF L, of w] A by blast
qed

lemma final_store_keeps:
  assumes "load_tracked st = Inr (tracked, last_run)" and "py_in x tracked"
  shows "\<exists>tracked' last_run'. load_tracked (final_store st ws) = Inr (tracked', last_run') \<and>
           py_in x tracked'"
  using assms
proof (induction ws arbitrary: st tracked last_run)
  case Nil
  then show ?case by simp
next
  case (Cons w ws)
  from pt_store_after[OF Cons.prems(1), of w] Cons.prems(2) obtain tracked' last_run' where
    "load_tracked (store_after (main_pt st w)) = Inr (tracked', last_run')" "py_in x tracked'"
    by blast
  then show ?case using Cons.IH by simp
qed

lemma earlier_shown_is_tracked:
  assumes "r \<in> set (runs_pt st ws)" and "arxiv_link i \<in> set (links_shown r)"
  shows "\<exists>tracked last_run. load_tracked (final_store st ws) = Inr (tracked, last_run) \<and>
           py_in (JStr i) tracked"
  using assms
proof (induction ws arbitrary: st)
  case Nil
  then show ?case by simp
next
  case (Cons w ws)
  from Cons.prems(1) consider "r = main_pt st w" | "r \<in> set (runs_pt (store_after (main_pt st w)) ws)"
    by auto
  then show ?case
  proof cases
    case 1
    with Cons.prems(2) pt_shown_is_tracked[of i st w] obtain tracked' last_run' where
      "load_tracked (store_after (main_pt st w)) = Inr (tracked', last_run')"
      "py_in (JStr i) tracked'" by blast
    then show ?thesis using final_store_keeps by simp
  next
    case 2
    then show ?thesis using Cons.IH Cons.prems(2) by simp
  qed
qed

subsection \<open>news\_monitor.py: selection\<close>

lemma bind_err_Inr: "bind_err m f = Inr y \<longleftrightarrow> (\<exists>x. m = Inr x \<and> f x = Inr y)"
  by (cases m) (simp_all add: bind_err_def)

lemma bind_err_Inl: "bind_err m f = Inl e \<longleftrightarrow> m = Inl e \<or> (\<exists>x. m = Inr x \<and> f x = Inl e)"
  by (cases m) (simp_all add: bind_err_def)

lemma bind_err_simps [simp]:
  "bind_err (Inl e) f = Inl e"
  "bind_err (Inr x) f = f x"
  by (simp_all add: bind_err_def)

lemma new_items_filter:
  "new_items url tr items = Inr r \<Longrightarrow> r = filter (\<lambda>n. \<not> seen_in tr (url n)) items"
proof (induction items arbitrary: r)
  case Nil
  then show ?case by simp
next
  case (Cons n ns)
  from Cons.prems obtain t seen rest where t: "tr = Inr t" and s: "py_contains t (url n) = Inr seen"
    and rest: "new_items url tr ns = Inr rest" and r: "r = (if seen then rest else n # rest)"
    by (auto simp: bind_err_Inr)
  from Cons.IH[OF rest] t s r show ?case by (auto simp: seen_in_def)
qed


lemma tracked_under_simps:
  "tracked_under config ''tracked_hn'' = py_getitem config ''tracked_hn''"
  "tracked_under config ''tracked_gh'' = py_getitem config ''tracked_gh''"
  "tracked_under config ''tracked_conf'' = py_getitem config ''tracked_conf''"
  "tracked_under config ''tracked_blog'' = py_get config ''tracked_blog'' (JList [])"
  by (simp_all add: tracked_under_def)

lemma nm_select_filter:
  assumes "nm_select config w = Inr sel" and "key \<in> set categories"
  shows "selected_urls key sel = filter (\<lambda>u. \<not> is_tracked config key u) (candidates key w)"
proof -
  obtain a b c d where sel: "sel = (a, b, c, d)" by (cases sel)
  from assms(1) have
    a: "new_items hn_url (tracked_under config ''tracked_hn'') (parse_hacker_news (hn_page w)) = Inr a"
    and b: "new_items gh_url (tracked_under config ''tracked_gh'')
              (parse_github_trending (gh_page w) (repo_page w)) = Inr b"
    and c: "new_items conf_url (tracked_under config ''tracked_conf'')
              (parse_conferences (nips_page w) (iclr_page w)) = Inr c"
    and d: "new_items blog_url (tracked_under config ''tracked_blog'')
              (parse_ai_blogs (blog_page w)) = Inr d"
    unfolding sel nm_select_def select_new_def tracked_under_simps
    by (auto simp: bind_err_Inr)
  from assms(2) consider "key = ''tracked_hn''" | "key = ''tracked_gh''" | "key = ''tracked_conf''"
    | "key = ''tracked_blog''" by (auto simp: categories_def)
  then show ?thesis
  proof cases
    case 1
    then show ?thesis using new_items_filter[OF a]
      by (simp add: sel selected_urls_def candidates_def is_tracked_def filter_map comp_def)
  next
    case 2
    then show ?thesis using new_items_filter[OF b]
      by (simp add: sel selected_urls_def candidates_def is_tracked_def filter_map comp_def)
  next
    case 3
    then show ?thesis using new_items_filter[OF c]
      by (simp add: sel selected_urls_def candidates_def is_tracked_def filter_map comp_def)
  next
    case 4
    then show ?thesis using new_items_filter[OF d]
      by (simp add: sel selected_urls_def candidates_def is_tracked_def filter_map comp_def)
  qed
qed


lemma format_message_urls:
  "key \<in> set categories \<Longrightarrow>
   set (urls_under key (format_message t a b c d)) \<subseteq> set (selected_urls key (a, b, c, d))"
proof -
  have hn: "map (\<lambda>(i, title, points, url). url) (m_news (format_message t a b c d)) = map hn_url (take 5 a)"
    by (simp add: format_message_def comp_def split_beta flip: map_map[of hn_url snd, unfolded comp_def])
  have gh: "map (\<lambda>(i, name, stars, url). url) (m_github (format_message t a b c d)) = map gh_url (take 5 b)"
    by (simp add: format_message_def comp_def split_beta flip: map_map[of gh_url snd, unfolded comp_def])
  have cf: "map (\<lambda>(i, source, detail, url). url) (m_conf (format_message t a b c d)) = map conf_url (take 3 c)"
    by (simp add: format_message_def comp_def split_beta flip: map_map[of conf_url snd, unfolded comp_def])
  have bl: "map (\<lambda>(i, source, title, url). url) (m_blog (format_message t a b c d)) = map blog_url (take 3 d)"
    by (simp add: format_message_def comp_def split_beta flip: map_map[of blog_url snd, unfolded comp_def])
  assume "key \<in> set categories"
  then consider "key = ''tracked_hn''" | "key = ''tracked_gh''" | "key = ''tracked_conf''"
    | "key = ''tracked_blog''" by (auto simp: categories_def)
  then show ?thesis
    by cases (auto simp: urls_under_def selected_urls_def hn gh cf bl dest: in_set_takeD)
qed

subsection \<open>news\_monitor.py: updating the tracked lists\<close>

lemma is_tracked_dict:
  "dict_map config = Some m \<Longrightarrow>
   is_tracked config key u = (case m key of Some v \<Rightarrow> py_contains v u = Inr True | None \<Rightarrow> False)"
  by (cases config)
     (auto simp: dict_map_def is_tracked_def seen_in_def tracked_under_def dict_get_def
           split: option.splits)

lemma is_tracked_no_dict: "dict_map config = None \<Longrightarrow> \<not> is_tracked config key u"
  by (cases config) (auto simp: dict_map_def is_tracked_def seen_in_def tracked_under_def)

lemma py_setitem_dict:
  "py_setitem config k v = Inr config' \<Longrightarrow>
     \<exists>m. dict_map config = Some m \<and> dict_map config' = Some (m(k \<mapsto> v))"
  by (cases config) (auto simp: dict_map_def update_conv')

lemma append_under_dict:
  assumes "append_under key u config = Inr config'"
  shows "\<exists>m xs. dict_map config = Some m \<and> m key = Some (JList xs) \<and>
           dict_map config' = Some (m(key \<mapsto> JList (xs @ [JStr u])))"
proof -
  from assms obtain t t' where t: "py_getitem config key = Inr t" and a: "py_append t u = Inr t'"
    and s: "py_setitem config key t' = Inr config'"
    by (auto simp: append_under_def bind_err_Inr)
  from a obtain xs where xs: "t = JList xs" "t' = JList (xs @ [JStr u])" by (cases t) auto
  from py_setitem_dict[OF s] obtain m where m: "dict_map config = Some m"
    "dict_map config' = Some (m(key \<mapsto> t'))" by blast
  have "m key = Some t" using t m(1) by (cases config) (auto simp: dict_map_def split: option.splits)
  with m xs show ?thesis by auto
qed

lemma track_urls_dict:
  assumes "track_urls key us config = Inr config'" and "us \<noteq> []"
  shows "\<exists>m xs. dict_map config = Some m \<and> m key = Some (JList xs) \<and>
           dict_map config' = Some (m(key \<mapsto> JList (xs @ map JStr us)))"
  using assms
proof (induction us arbitrary: config)
  case Nil
  then show ?case by simp
next
  case (Cons u us)
  from Cons.prems(1) obtain c1 where c1: "append_under key u config = Inr c1"
    and rest: "track_urls key us c1 = Inr config'" by (auto simp: bind_err_Inr)
  from append_under_dict[OF c1] obtain m xs where m: "dict_map config = Some m"
    "m key = Some (JList xs)" "dict_map c1 = Some (m(key \<mapsto> JList (xs @ [JStr u])))" by blast
  show ?case
  proof (cases "us = []")
    case True
    then show ?thesis using rest m by auto
  next
    case False
    from Cons.IH[OF rest False] m(3) have
      "dict_map config' = Some (m(key \<mapsto> JList ((xs @ [JStr u]) @ map JStr us)))" by auto
    then show ?thesis using m by auto
  qed
qed

lemma track_blog_dict:
  assumes "track_blog us config = Inr config'" and "us \<noteq> []"
  shows "\<exists>m xs. dict_map config = Some m \<and>
           (m ''tracked_blog'' = Some (JList xs) \<or> m ''tracked_blog'' = None \<and> xs = []) \<and>
           dict_map config' = Some (m(''tracked_blog'' \<mapsto> JList (xs @ map JStr us)))"
  using assms
proof (induction us arbitrary: config)
  case Nil
  then show ?case by simp
next
  case (Cons u us)
  from Cons.prems(1) obtain present c0 c1 where
    p: "py_contains config ''tracked_blog'' = Inr present"
    and c0: "(if present then Inr config else py_setitem config ''tracked_blog'' (JList [])) = Inr c0"
    and c1: "append_under ''tracked_blog'' u c0 = Inr c1"
    and rest: "track_blog us c1 = Inr config'" by (auto simp: bind_err_Inr)
  from append_under_dict[OF c1] obtain m0 xs where m0: "dict_map c0 = Some m0"
    "m0 ''tracked_blog'' = Some (JList xs)"
    "dict_map c1 = Some (m0(''tracked_blog'' \<mapsto> JList (xs @ [JStr u])))" by blast
  have first: "\<exists>m. dict_map config = Some m \<and>
           (m ''tracked_blog'' = Some (JList xs) \<or> m ''tracked_blog'' = None \<and> xs = []) \<and>
           dict_map c1 = Some (m(''tracked_blog'' \<mapsto> JList (xs @ [JStr u])))"
  proof (cases present)
    case True
    then show ?thesis using c0 m0 by auto
  next
    case False
    with c0 have s: "py_setitem config ''tracked_blog'' (JList []) = Inr c0" by simp
    from py_setitem_dict[OF s] obtain m where m: "dict_map config = Some m"
      "dict_map c0 = Some (m(''tracked_blog'' \<mapsto> JList []))" by blast
    have "m ''tracked_blog'' = None" using p False m(1)
      by (cases config) (auto simp: dict_map_def map_of_eq_None_iff)
    moreover have "xs = []" using m0 m by auto
    ultimately show ?thesis using m m0 by auto
  qed
  then obtain m where m: "dict_map config = Some m"
    "m ''tracked_blog'' = Some (JList xs) \<or> m ''tracked_blog'' = None \<and> xs = []"
    "dict_map c1 = Some (m(''tracked_blog'' \<mapsto> JList (xs @ [JStr u])))" by blast
  show ?case
  proof (cases "us = []")
    case True
    then have "config' = c1" using rest by simp
    then show ?thesis using m True by (intro exI[of _ m] exI[of _ xs]) (simp add: fun_upd_def)
  next
    case False
    from Cons.IH[OF rest False] m(3) have
      "dict_map config' = Some (m(''tracked_blog'' \<mapsto> JList ((xs @ [JStr u]) @ map JStr us)))"
      by auto
    then show ?thesis using m by (intro exI[of _ m] exI[of _ xs]) (simp add: fun_upd_def)
  qed
qed

lemma track_urls_tracked:
  assumes "track_urls key us config = Inr config'"
  shows "is_tracked config' k u \<longleftrightarrow> is_tracked config k u \<or> k = key \<and> u \<in> set us"
proof (cases "us = []")
  case True
  then show ?thesis using assms by simp
next
  case False
  from track_urls_dict[OF assms False] obtain m xs where m: "dict_map config = Some m"
    "m key = Some (JList xs)" "dict_map config' = Some (m(key \<mapsto> JList (xs @ map JStr us)))"
    by blast
  show ?thesis
    unfolding is_tracked_dict[OF m(1)] is_tracked_dict[OF m(3)] using m(2) by auto
qed

lemma track_blog_tracked:
  assumes "track_blog us config = Inr config'"
  shows "is_tracked config' k u \<longleftrightarrow> is_tracked config k u \<or> k = ''tracked_blog'' \<and> u \<in> set us"
proof (cases "us = []")
  case True
  then show ?thesis using assms by simp
next
  case False
  from track_blog_dict[OF assms False] obtain m xs where m: "dict_map config = Some m"
    "m ''tracked_blog'' = Some (JList xs) \<or> m ''tracked_blog'' = None \<and> xs = []"
    "dict_map config' = Some (m(''tracked_blog'' \<mapsto> JList (xs @ map JStr us)))"
    by blast
  show ?thesis
    unfolding is_tracked_dict[OF m(1)] is_tracked_dict[OF m(3)] using m(2) by auto
qed

lemma set_last_run_tracked:
  assumes "py_setitem config ''last_run'' v = Inr config'" and "k \<in> set categories"
  shows "is_tracked config' k u \<longleftrightarrow> is_tracked config k u"
proof -
  from py_setitem_dict[OF assms(1)] obtain m where m: "dict_map config = Some m"
    "dict_map config' = Some (m(''last_run'' \<mapsto> v))" by blast
  have "k \<noteq> ''last_run''" using assms(2) by (auto simp: categories_def)
  then show ?thesis unfolding is_tracked_dict[OF m(1)] is_tracked_dict[OF m(2)] by simp
qed

lemma update_tracked_tracked:
  assumes "update_tracked t a b c d config = Inr config'" and "k \<in> set categories"
  shows "is_tracked config' k u \<longleftrightarrow>
           is_tracked config k u \<or> u \<in> set (selected_urls k (a, b, c, d))"
proof -
  from assms(1) obtain c1 c2 c3 c4 where
    s1: "track_urls ''tracked_hn'' (map hn_url a) config = Inr c1" and
    s2: "track_urls ''tracked_gh'' (map gh_url b) c1 = Inr c2" and
    s3: "track_urls ''tracked_conf'' (map conf_url c) c2 = Inr c3" and
    s4: "track_blog (map blog_url d) c3 = Inr c4" and
    s5: "py_setitem c4 ''last_run'' (JStr t) = Inr config'"
    by (auto simp: update_tracked_def bind_err_Inr)
  have "is_tracked config' k u \<longleftrightarrow> is_tracked c4 k u"
    using set_last_run_tracked[OF s5 assms(2)] .
  also have "\<dots> \<longleftrightarrow> is_tracked config k u \<or> k = ''tracked_hn'' \<and> u \<in> set (map hn_url a) \<or>
      k = ''tracked_gh'' \<and> u \<in> set (map gh_url b) \<or> k = ''tracked_conf'' \<and> u \<in> set (map conf_url c) \<or>
      k = ''tracked_blog'' \<and> u \<in> set (map blog_url d)"
    unfolding track_blog_tracked[OF s4] track_urls_tracked[OF s3] track_urls_tracked[OF s2]
      track_urls_tracked[OF s1] by blast
  also have "\<dots> \<longleftrightarrow> is_tracked config k u \<or> u \<in> set (selected_urls k (a, b, c, d))"
    using assms(2) by (auto simp: selected_urls_def categories_def)
  finally show ?thesis .
qed

subsection \<open>news\_monitor.py: the outcomes of a run\<close>

lemma main_nm_cases [consumes 0, case_names load_error select_error nothing_new update_error selected]:
  obtains
    e where "load_config st = Inl e" "main_nm st w = aborted st [] [Banner] e"
  | config e where "load_config st = Inr config" "nm_select config w = Inl e"
      "main_nm st w = aborted st [] [Banner] e"
  | config where "load_config st = Inr config" "nm_select config w = Inr ([], [], [], [])"
      "main_nm st w = \<lparr>store_after = st, attempts = [],
                        console = [Banner, Found [0, 0, 0, 0], Nothing_new], raised = None\<rparr>"
  | config a b c d e where "load_config st = Inr config" "nm_select config w = Inr (a, b, c, d)"
      "(a, b, c, d) \<noteq> ([], [], [], [])"
      "update_tracked (nm_now w) a b c d config = Inl e"
      "main_nm st w = aborted st [format_message (nm_now w) a b c d] (nm_console w (a, b, c, d)) e"
  | config a b c d config' where "load_config st = Inr config"
      "nm_select config w = Inr (a, b, c, d)" "(a, b, c, d) \<noteq> ([], [], [], [])"
      "update_tracked (nm_now w) a b c d config = Inr config'"
      "main_nm st w = \<lparr>store_after = save_config config',
                        attempts = [format_message (nm_now w) a b c d],
                        console = nm_console w (a, b, c, d), raised = None\<rparr>"
proof (cases "load_config st")
  case (Inl e)
  then show ?thesis using that(1) by (simp add: main_nm_def)
next
  case (Inr config)
  show ?thesis
  proof (cases "nm_select config w")
    case (Inl e)
    then show ?thesis using that(2)[OF Inr] Inr
      by (simp add: main_nm_def nm_select_def Let_def)
  next
    case sel: (Inr sel)
    obtain a b c d where abcd: "sel = (a, b, c, d)" by (cases sel)
    have fst_send: "fst (send_to_telegram (nm_gateway w) :: string option \<times> nm_digest line list)
                      = nm_gateway w"
      by (cases "nm_gateway w") (simp_all add: send_to_telegram_def)
    show ?thesis
    proof (cases "(a, b, c, d) = ([], [], [], [])")
      case True
      then show ?thesis using that(3)[OF Inr] Inr sel abcd
        by (simp add: main_nm_def nm_select_def Let_def)
    next
      case False
      show ?thesis
      proof (cases "update_tracked (nm_now w) a b c d config")
        case (Inl e)
        have "main_nm st w =
                aborted st [format_message (nm_now w) a b c d] (nm_console w (a, b, c, d)) e"
          using Inr sel[unfolded nm_select_def] abcd False Inl fst_send
          by (auto simp: main_nm_def Let_def split_beta nm_console_def)
        then show ?thesis using that(4)[OF Inr _ False Inl] sel abcd by simp
      next
        case (Inr config')
        have "main_nm st w = \<lparr>store_after = save_config config',
                        attempts = [format_message (nm_now w) a b c d],
                        console = nm_console w (a, b, c, d), raised = None\<rparr>"
          using \<open>load_config st = Inr config\<close> sel[unfolded nm_select_def] abcd False Inr fst_send
          by (auto simp: main_nm_def Let_def split_beta nm_console_def)
        then show ?thesis using that(5)[OF \<open>load_config st = Inr config\<close> _ False Inr] sel abcd
          by simp
      qed
    qed
  qed
qed

subsection \<open>news\_monitor.py: digests, the tracking file, delivery\<close>

lemma nm_nothing_new:
  assumes "load_config st = Inr config" and "nm_select config w = Inr ([], [], [], [])"
  shows "main_nm st w = \<lparr>store_after = st, attempts = [],
                        console = [Banner, Found [0, 0, 0, 0], Nothing_new], raised = None\<rparr>"
  using assms by (cases rule: main_nm_cases[of st w]) auto



lemma load_save_config [simp]: "load_config (save_config config) = Inr config"
  by (simp add: save_config_def)

lemma shown_nm_console:
  "shown (nm_console w (a, b, c, d)) =
     (if truthy (nm_gateway w) then [] else [format_message (nm_now w) a b c d])"
  by (cases "nm_gateway w") (simp_all add: nm_console_def send_to_telegram_def)

lemma nm_digests:
  assumes "m \<in> set (digests (main_nm st w))"
  shows "\<exists>config a b c d. load_config st = Inr config \<and> nm_select config w = Inr (a, b, c, d) \<and>
           m = format_message (nm_now w) a b c d"
  using assms
  by (cases rule: main_nm_cases[of st w])
     (auto simp: digests_def aborted_def shown_nm_console split: if_splits)

lemma nm_tracked_not_shown:
  assumes "load_config st = Inr config" and "key \<in> set categories" and "is_tracked config key u"
  shows "u \<notin> set (nm_urls_shown key (main_nm st w))"
proof
  assume "u \<in> set (nm_urls_shown key (main_nm st w))"
  then obtain m where m: "m \<in> set (digests (main_nm st w))" and u: "u \<in> set (urls_under key m)"
    by (auto simp: nm_urls_shown_def)
  from nm_digests[OF m] assms(1) obtain a b c d where
    sel: "nm_select config w = Inr (a, b, c, d)" and "m = format_message (nm_now w) a b c d"
    by auto
  with u format_message_urls[OF assms(2)] have "u \<in> set (selected_urls key (a, b, c, d))"
    by blast
  then have "\<not> is_tracked config key u"
    unfolding nm_select_filter[OF sel assms(2)] by simp
  with assms(3) show False by simp
qed

lemma nm_store_after:
  assumes "load_config st = Inr config"
  shows "\<exists>config'. load_config (store_after (main_nm st w)) = Inr config' \<and>
           (\<forall>key \<in> set categories. \<forall>u. is_tracked config key u \<longrightarrow> is_tracked config' key u) \<and>
           (raised (main_nm st w) = None \<longrightarrow>
              (\<forall>sel. nm_select config w = Inr sel \<longrightarrow>
                 (\<forall>key \<in> set categories. \<forall>u \<in> set (selected_urls key sel). is_tracked config' key u)))"
proof (cases rule: main_nm_cases[of st w])
  case (load_error e)
  then show ?thesis using assms by simp
next
  case (select_error config0 e)
  then show ?thesis using assms by (simp add: aborted_def)
next
  case (nothing_new config0)
  then show ?thesis using assms by (auto simp: selected_urls_def)
next
  case (update_error config0 a b c d e)
  then show ?thesis using assms by (simp add: aborted_def)
next
  case (selected config0 a b c d config')
  then have "update_tracked (nm_now w) a b c d config = Inr config'"
    and "nm_select config w = Inr (a, b, c, d)" using assms by simp_all
  then show ?thesis using selected(5) update_tracked_tracked by auto
qed


lemma nm_gateway_irrelevant:
  "store_after (main_nm st (w\<lparr>nm_gateway := g\<rparr>)) = store_after (main_nm st w) \<and>
   raised (main_nm st (w\<lparr>nm_gateway := g\<rparr>)) = raised (main_nm st w) \<and>
   attempts (main_nm st (w\<lparr>nm_gateway := g\<rparr>)) = attempts (main_nm st w)"
proof -
  have sel: "nm_select config (w\<lparr>nm_gateway := g\<rparr>) = nm_select config w" for config
    by (simp add: nm_select_def)
  show ?thesis
    by (cases rule: main_nm_cases[of st w]; cases rule: main_nm_cases[of st "w\<lparr>nm_gateway := g\<rparr>"])
       (auto simp: sel aborted_def)
qed

lemma nm_failed_delivery_printed:
  assumes "nm_gateway w = None" and "m \<in> set (attempts (main_nm st w))"
  shows "Shown m \<in> set (console (main_nm st w))"
  using assms
  by (cases rule: main_nm_cases[of st w])
     (auto simp: aborted_def nm_console_def truthy_def send_to_telegram_def)

lemma pt_gateway_irrelevant:
  "store_after (main_pt st (w\<lparr>gateway := g\<rparr>)) = store_after (main_pt st w) \<and>
   raised (main_pt st (w\<lparr>gateway := g\<rparr>)) = raised (main_pt st w) \<and>
   attempts (main_pt st (w\<lparr>gateway := g\<rparr>)) = attempts (main_pt st w)"
  by (cases rule: main_pt_cases[of st w]; cases rule: main_pt_cases[of st "w\<lparr>gateway := g\<rparr>"])
     (auto simp: aborted_def)

lemma pt_failed_delivery_printed:
  assumes "gateway w = None" and "m \<in> set (attempts (main_pt st w))"
  shows "Shown m \<in> set (console (main_pt st w))"
  using assms
  by (cases rule: main_pt_cases[of st w]) (auto simp: aborted_def truthy_def send_to_telegram_def)

subsection \<open>news\_monitor.py: runs on a well-shaped tracking state complete\<close>

lemma wf_config_dict:
  "wf_config config \<longleftrightarrow>
     (\<exists>m. dict_map config = Some m \<and>
        (\<forall>key \<in> set categories.
           (\<exists>xs. m key = Some (JList xs)) \<or> m key = None \<and> key = ''tracked_blog''))"
proof (cases config)
  case (JDict kvs)
  have "(case map_of kvs key of Some (JList xs) \<Rightarrow> True | Some other \<Rightarrow> False
          | None \<Rightarrow> key = ''tracked_blog'') \<longleftrightarrow>
        (\<exists>xs. map_of kvs key = Some (JList xs)) \<or> map_of kvs key = None \<and> key = ''tracked_blog''"
    for key by (auto split: option.splits json.splits)
  then show ?thesis using JDict by (simp add: wf_config_def dict_map_def list_all_iff)
qed (simp_all add: wf_config_def dict_map_def)

lemma wf_default_config: "wf_config default_config"
  by (simp add: wf_config_def default_config_def categories_def)

lemma py_setitem_ok:
  "dict_map config = Some m \<Longrightarrow>
     \<exists>config'. py_setitem config k v = Inr config' \<and> dict_map config' = Some (m(k \<mapsto> v))"
  by (cases config) (auto simp: dict_map_def update_conv')

lemma append_under_ok:
  assumes "dict_map config = Some m" and "m key = Some (JList xs)"
  shows "\<exists>config'. append_under key u config = Inr config' \<and>
           dict_map config' = Some (m(key \<mapsto> JList (xs @ [JStr u])))"
proof -
  have "py_getitem config key = Inr (JList xs)"
    using assms by (cases config) (auto simp: dict_map_def)
  then show ?thesis using py_setitem_ok[OF assms(1), of key "JList (xs @ [JStr u])"]
    by (auto simp: append_under_def)
qed

lemma track_urls_ok:
  assumes "dict_map config = Some m" and "m key = Some (JList xs)"
  shows "\<exists>config'. track_urls key us config = Inr config' \<and>
           dict_map config' = Some (m(key \<mapsto> JList (xs @ map JStr us)))"
  using assms
proof (induction us arbitrary: config m xs)
  case Nil
  then show ?case by (auto simp: fun_upd_idem)
next
  case (Cons u us)
  from append_under_ok[OF Cons.prems, of u] obtain c1 where
    c1: "append_under key u config = Inr c1"
    "dict_map c1 = Some (m(key \<mapsto> JList (xs @ [JStr u])))" by blast
  have k: "(m(key \<mapsto> JList (xs @ [JStr u]))) key = Some (JList (xs @ [JStr u]))" by simp
  from Cons.IH[OF c1(2) k] obtain config' where
    t: "track_urls key us c1 = Inr config'" and
    d: "dict_map config' = Some ((m(key \<mapsto> JList (xs @ [JStr u])))
          (key \<mapsto> JList ((xs @ [JStr u]) @ map JStr us)))" by blast
  have "track_urls key (u # us) config = Inr config'" using c1(1) t by simp
  moreover have "dict_map config' = Some (m(key \<mapsto> JList (xs @ map JStr (u # us))))"
    unfolding d by (simp add: fun_upd_def fun_eq_iff)
  ultimately show ?case by blast
qed

lemma track_blog_some_ok:
  assumes "dict_map config = Some m" and "m ''tracked_blog'' = Some (JList xs)"
  shows "\<exists>config'. track_blog us config = Inr config' \<and>
           dict_map config' = Some (m(''tracked_blog'' \<mapsto> JList (xs @ map JStr us)))"
  using assms
proof (induction us arbitrary: config m xs)
  case Nil
  then show ?case by (auto simp: fun_upd_idem)
next
  case (Cons u us)
  have present: "py_contains config ''tracked_blog'' = Inr True"
    using Cons.prems by (cases config) (auto simp: dict_map_def dest: map_of_SomeD intro: rev_image_eqI)
  from append_under_ok[OF Cons.prems, of u] obtain c1 where
    c1: "append_under ''tracked_blog'' u config = Inr c1"
    "dict_map c1 = Some (m(''tracked_blog'' \<mapsto> JList (xs @ [JStr u])))" by blast
  have k: "(m(''tracked_blog'' \<mapsto> JList (xs @ [JStr u]))) ''tracked_blog'' =
             Some (JList (xs @ [JStr u]))" by simp
  from Cons.IH[OF c1(2) k] obtain config' where
    t: "track_blog us c1 = Inr config'" and
    d: "dict_map config' = Some ((m(''tracked_blog'' \<mapsto> JList (xs @ [JStr u])))
          (''tracked_blog'' \<mapsto> JList ((xs @ [JStr u]) @ map JStr us)))" by blast
  have "track_blog (u # us) config = Inr config'" using c1(1) t present by simp
  moreover have "dict_map config' = Some (m(''tracked_blog'' \<mapsto> JList (xs @ map JStr (u # us))))"
    unfolding d by (simp add: fun_upd_def fun_eq_iff)
  ultimately show ?case by blast
qed

lemma track_blog_ok:
  assumes "dict_map config = Some m"
    and "(\<exists>xs. m ''tracked_blog'' = Some (JList xs)) \<or> m ''tracked_blog'' = None"
  shows "\<exists>config' m'. track_blog us config = Inr config' \<and> dict_map config' = Some m' \<and>
           (\<forall>k. k \<noteq> ''tracked_blog'' \<longrightarrow> m' k = m k) \<and>
           ((\<exists>xs. m' ''tracked_blog'' = Some (JList xs)) \<or> m' ''tracked_blog'' = None)"
proof (cases us)
  case Nil
  then show ?thesis using assms by auto
next
  case (Cons u us')
  show ?thesis
  proof (cases "m ''tracked_blog''")
    case (Some v)
    with assms(2) obtain xs where "m ''tracked_blog'' = Some (JList xs)" by auto
    from track_blog_some_ok[OF assms(1) this, of us] show ?thesis by auto
  next
    case None
    have absent: "py_contains config ''tracked_blog'' = Inr False"
    proof -
      obtain kvs where c: "config = JDict kvs" and mk: "m = map_of kvs"
        using assms(1) by (cases config) (auto simp: dict_map_def)
      have "''tracked_blog'' \<notin> fst ` set kvs"
        using None mk by (simp add: map_of_eq_None_iff)
      then show ?thesis using c by simp
    qed
    from py_setitem_ok[OF assms(1), of "''tracked_blog''" "JList []"] obtain c0 where
      c0: "py_setitem config ''tracked_blog'' (JList []) = Inr c0"
      "dict_map c0 = Some (m(''tracked_blog'' \<mapsto> JList []))" by blast
    have k0: "(m(''tracked_blog'' \<mapsto> JList [])) ''tracked_blog'' = Some (JList [])" by simp
    from append_under_ok[OF c0(2) k0, of u] obtain c1 where
      c1: "append_under ''tracked_blog'' u c0 = Inr c1" and
      d1: "dict_map c1 = Some ((m(''tracked_blog'' \<mapsto> JList []))
             (''tracked_blog'' \<mapsto> JList ([] @ [JStr u])))"
      by blast
    have k1: "((m(''tracked_blog'' \<mapsto> JList []))(''tracked_blog'' \<mapsto> JList ([] @ [JStr u])))
               ''tracked_blog'' = Some (JList ([] @ [JStr u]))" by simp
    from track_blog_some_ok[OF d1 k1, of us'] obtain config' where
      t: "track_blog us' c1 = Inr config'" and
      d: "dict_map config' = Some (((m(''tracked_blog'' \<mapsto> JList []))
             (''tracked_blog'' \<mapsto> JList ([] @ [JStr u])))
             (''tracked_blog'' \<mapsto> JList (([] @ [JStr u]) @ map JStr us')))" by blast
    have "track_blog us config = Inr config'" using Cons absent c0(1) c1 t by simp
    then show ?thesis unfolding d using d by (intro exI conjI) (assumption, rule d, simp_all)
  qed
qed

lemma new_items_list_ok: "\<exists>r. new_items url (Inr (JList xs)) items = Inr r"
  by (induction items) auto

lemma nm_select_ok:
  assumes "wf_config config"
  shows "\<exists>sel. nm_select config w = Inr sel"
proof -
  from assms obtain m where m: "dict_map config = Some m"
    and keys: "\<forall>key \<in> set categories.
           (\<exists>xs. m key = Some (JList xs)) \<or> m key = None \<and> key = ''tracked_blog''"
    unfolding wf_config_dict by blast
  have get: "\<exists>xs. py_getitem config key = Inr (JList xs)"
    if "key \<in> set categories" "key \<noteq> ''tracked_blog''" for key
    using keys that m by (cases config) (auto simp: dict_map_def)
  have blog: "\<exists>xs. py_get config ''tracked_blog'' (JList []) = Inr (JList xs)"
    using keys m by (cases config) (auto simp: dict_map_def dict_get_def categories_def)
  from get[of "''tracked_hn''"] get[of "''tracked_gh''"] get[of "''tracked_conf''"] blog
  obtain x1 x2 x3 x4 where
    "py_getitem config ''tracked_hn'' = Inr (JList x1)"
    "py_getitem config ''tracked_gh'' = Inr (JList x2)"
    "py_getitem config ''tracked_conf'' = Inr (JList x3)"
    "py_get config ''tracked_blog'' (JList []) = Inr (JList x4)"
    by (auto simp: categories_def)
  moreover obtain a where "new_items hn_url (Inr (JList x1)) (parse_hacker_news (hn_page w)) = Inr a"
    using new_items_list_ok by blast
  moreover obtain b where "new_items gh_url (Inr (JList x2))
      (parse_github_trending (gh_page w) (repo_page w)) = Inr b"
    using new_items_list_ok by blast
  moreover obtain c where "new_items conf_url (Inr (JList x3))
      (parse_conferences (nips_page w) (iclr_page w)) = Inr c"
    using new_items_list_ok by blast
  moreover obtain d where "new_items blog_url (Inr (JList x4)) (parse_ai_blogs (blog_page w)) = Inr d"
    using new_items_list_ok by blast
  ultimately show ?thesis by (simp add: nm_select_def select_new_def)
qed

lemma track_urls_wf:
  assumes "wf_config config" and "key \<in> set categories" and "key \<noteq> ''tracked_blog''"
  shows "\<exists>config'. track_urls key us config = Inr config' \<and> wf_config config'"
proof -
  from assms(1) obtain m where m: "dict_map config = Some m"
    and keys: "\<forall>k \<in> set categories.
           (\<exists>xs. m k = Some (JList xs)) \<or> m k = None \<and> k = ''tracked_blog''"
    unfolding wf_config_dict by blast
  from keys assms(2,3) obtain xs where xs: "m key = Some (JList xs)" by blast
  from track_urls_ok[OF m xs, of us] obtain config' where
    t: "track_urls key us config = Inr config'" and
    d: "dict_map config' = Some (m(key \<mapsto> JList (xs @ map JStr us)))" by blast
  have "wf_config config'"
    unfolding wf_config_dict using d keys by auto
  with t show ?thesis by blast
qed

lemma track_blog_wf:
  assumes "wf_config config"
  shows "\<exists>config'. track_blog us config = Inr config' \<and> wf_config config'"
proof -
  from assms(1) obtain m where m: "dict_map config = Some m"
    and keys: "\<forall>k \<in> set categories.
           (\<exists>xs. m k = Some (JList xs)) \<or> m k = None \<and> k = ''tracked_blog''"
    unfolding wf_config_dict by blast
  have "(\<exists>xs. m ''tracked_blog'' = Some (JList xs)) \<or> m ''tracked_blog'' = None"
    using keys by (auto simp: categories_def)
  from track_blog_ok[OF m this, of us] obtain config' m' where
    t: "track_blog us config = Inr config'" and d: "dict_map config' = Some m'" and
    same: "\<forall>k. k \<noteq> ''tracked_blog'' \<longrightarrow> m' k = m k" and
    blog: "(\<exists>xs. m' ''tracked_blog'' = Some (JList xs)) \<or> m' ''tracked_blog'' = None" by blast
  have "(\<exists>xs. m' k = Some (JList xs)) \<or> m' k = None \<and> k = ''tracked_blog''"
    if "k \<in> set categories" for k
  proof (cases "k = ''tracked_blog''")
    case True
    then show ?thesis using blog by auto
  next
    case False
    then show ?thesis using same keys that by auto
  qed
  then have "wf_config config'" unfolding wf_config_dict using d by blast
  with t show ?thesis by blast
qed

lemma set_last_run_wf:
  assumes "wf_config config"
  shows "\<exists>config'. py_setitem config ''last_run'' v = Inr config' \<and> wf_config config'"
proof -
  from assms(1) obtain m where m: "dict_map config = Some m"
    and keys: "\<forall>k \<in> set categories.
           (\<exists>xs. m k = Some (JList xs)) \<or> m k = None \<and> k = ''tracked_blog''"
    unfolding wf_config_dict by blast
  from py_setitem_ok[OF m, of "''last_run''" v] obtain config' where
    s: "py_setitem config ''last_run'' v = Inr config'" and
    d: "dict_map config' = Some (m(''last_run'' \<mapsto> v))" by blast
  have "k \<noteq> ''last_run''" if "k \<in> set categories" for k
    using that by (auto simp: categories_def)
  then have "wf_config config'" unfolding wf_config_dict using d keys by auto
  with s show ?thesis by blast
qed

lemma update_tracked_ok:
  assumes "wf_config config"
  shows "\<exists>config'. update_tracked t a b c d config = Inr config' \<and> wf_config config'"
proof -
  from track_urls_wf[OF assms, of "''tracked_hn''" "map hn_url a"] obtain c1 where
    c1: "track_urls ''tracked_hn'' (map hn_url a) config = Inr c1" "wf_config c1"
    by (auto simp: categories_def)
  from track_urls_wf[OF c1(2), of "''tracked_gh''" "map gh_url b"] obtain c2 where
    c2: "track_urls ''tracked_gh'' (map gh_url b) c1 = Inr c2" "wf_config c2"
    by (auto simp: categories_def)
  from track_urls_wf[OF c2(2), of "''tracked_conf''" "map conf_url c"] obtain c3 where
    c3: "track_urls ''tracked_conf'' (map conf_url c) c2 = Inr c3" "wf_config c3"
    by (auto simp: categories_def)
  from track_blog_wf[OF c3(2), of "map blog_url d"] obtain c4 where
    c4: "track_blog (map blog_url d) c3 = Inr c4" "wf_config c4" by blast
  from set_last_run_wf[OF c4(2), of "JStr t"] obtain config' where
    "py_setitem c4 ''last_run'' (JStr t) = Inr config'" "wf_config config'" by blast
  with c1 c2 c3 c4 show ?thesis by (simp add: update_tracked_def)
qed

lemma nm_run_completes:
  assumes "load_config st = Inr config" and "wf_config config"
  shows "raised (main_nm st w) = None \<and>
         (\<exists>config'. load_config (store_after (main_nm st w)) = Inr config' \<and> wf_config config')"
proof (cases rule: main_nm_cases[of st w])
  case (load_error e)
  then show ?thesis using assms by simp
next
  case (select_error config0 e)
  then show ?thesis using assms nm_select_ok[OF assms(2), of w] by auto
next
  case (nothing_new config0)
  then show ?thesis using assms by auto
next
  case (update_error config0 a b c d e)
  then show ?thesis using assms update_tracked_ok[OF assms(2), of "nm_now w" a b c d] by auto
next
  case (selected config0 a b c d config')
  then show ?thesis using assms update_tracked_ok[OF assms(2), of "nm_now w" a b c d] by auto
qed

lemma nm_runs_never_show:
  assumes "load_config st = Inr config" and "key \<in> set categories" and "is_tracked config key u"
    and "r \<in> set (runs_nm st ws)"
  shows "u \<notin> set (nm_urls_shown key r)"
  using assms
proof (induction ws arbitrary: st config)
  case Nil
  then show ?case by simp
next
  case (Cons w ws)
  from nm_store_after[OF Cons.prems(1), of w] Cons.prems(2,3) obtain config' where
    L: "load_config (store_after (main_nm st w)) = Inr config'"
    and M: "is_tracked config' key u" by blast
  from Cons.prems(4) consider "r = main_nm st w" | "r \<in> set (runs_nm (store_after (main_nm st w)) ws)"
    by auto
  then show ?case
  proof cases
    case 1
    then show ?thesis using nm_tracked_not_shown[OF Cons.prems(1,2,3)] by simp
  next
    case 2
    then show ?thesis using Cons.IH[OF L Cons.prems(2) M] by simp
  qed
qed

lemma final_store_nm_keeps:
  assumes "load_config st = Inr config" and "key \<in> set categories" and "is_tracked config key u"
  shows "\<exists>config'. load_config (final_store_nm st ws) = Inr config' \<and> is_tracked config' key u"
  using assms
proof (induction ws arbitrary: st config)
  case Nil
  then show ?case by simp
next
  case (Cons w ws)
  from nm_store_after[OF Cons.prems(1), of w] Cons.prems(2,3) obtain config' where
    "load_config (store_after (main_nm st w)) = Inr config'" "is_tracked config' key u" by blast
  then show ?case using Cons.IH[OF _ Cons.prems(2)] by simp
qed

subsection \<open>C1: a tracked identifier is not selected again\<close>

text \<open>
  Claim C1. An item whose identifier is in the tracking state for its category is in no
  digest of a later run presented with that identifier, whatever its score or metadata then.
  For \<open>paper_tracker.py\<close>: if the tracked set loaded from the file holds the identifier, no
  run of any chain of later runs sends or prints a digest with the paper's link. For
  \<open>news_monitor.py\<close>: if the loaded state tracks a link under a category, no run of any
  chain of later runs sends or prints a digest with that link in the category's section.
\<close>

theorem tracked_items_never_in_digest:
  "(load_tracked st = Inr (tracked, last_run) \<and> py_in (JStr i) tracked \<longrightarrow>
      (\<forall>r \<in> set (runs_pt st ws). arxiv_link i \<notin> set (links_shown r))) \<and>
   (load_config st' = Inr config \<and> key \<in> set categories \<and> is_tracked config key u \<longrightarrow>
      (\<forall>r \<in> set (runs_nm st' ws'). u \<notin> set (nm_urls_shown key r)))"
  using runs_never_show[of st tracked last_run i _ ws]
    nm_runs_never_show[of st' config key u _ ws']
  by blast

text \<open>
  The tracked paper 2601.00002 is listed again with score 3 and is not shown; the tracked
  story is fetched again and is not shown.
\<close>

theorem tracked_items_never_in_digest_witness:
  "load_tracked sample_paper_store = Inr ([JStr ''2601.00002''], JStr ''2026-01-06T08:00:00'') \<and>
   py_in (JStr ''2601.00002'') [JStr ''2601.00002''] \<and>
   map p_score (filter (\<lambda>p. p_id p = ''2601.00002'') (parse_papers sample_page)) = [3] \<and>
   runs_pt sample_paper_store [sample_world] = [main_pt sample_paper_store sample_world] \<and>
   arxiv_link ''2601.00002'' \<notin> set (links_shown (main_pt sample_paper_store sample_world)) \<and>
   links_shown (main_pt sample_paper_store sample_world) =
     [''https://arxiv.org/2601.00001'', ''https://arxiv.org/2601.00001''] \<and>
   load_config sample_news_store = Inr sample_news_config \<and>
   is_tracked sample_news_config ''tracked_hn'' ''https://example.org/gpt'' \<and>
   ''https://example.org/gpt'' \<in> set (candidates ''tracked_hn'' sample_web) \<and>
   ''https://example.org/gpt'' \<notin>
      set (nm_urls_shown ''tracked_hn'' (main_nm sample_news_store sample_web))"
proof -
  have a: "load_tracked sample_paper_store =
             Inr ([JStr ''2601.00002''], JStr ''2026-01-06T08:00:00'')" by code_simp
  have b: "py_in (JStr ''2601.00002'') [JStr ''2601.00002'']" by code_simp
  have c: "map p_score (filter (\<lambda>p. p_id p = ''2601.00002'') (parse_papers sample_page)) = [3]"
    by code_simp
  have d: "links_shown (main_pt sample_paper_store sample_world) =
     [''https://arxiv.org/2601.00001'', ''https://arxiv.org/2601.00001'']" by code_simp
  have e: "load_config sample_news_store = Inr sample_news_config"
    by (simp add: sample_news_store_def)
  have f: "is_tracked sample_news_config ''tracked_hn'' ''https://example.org/gpt''" by code_simp
  have g: "''https://example.org/gpt'' \<in> set (candidates ''tracked_hn'' sample_web)" by code_simp
  have h: "''tracked_hn'' \<in> set categories" by (simp add: categories_def)
  from tracked_items_never_in_digest[of sample_paper_store "[JStr ''2601.00002'']"
      "JStr ''2026-01-06T08:00:00''" "''2601.00002''" "[sample_world]" sample_news_store
      sample_news_config "''tracked_hn''" "''https://example.org/gpt''" "[sample_web]"] a b e f h
  have "arxiv_link ''2601.00002'' \<notin> set (links_shown (main_pt sample_paper_store sample_world))"
    and "''https://example.org/gpt'' \<notin>
      set (nm_urls_shown ''tracked_hn'' (main_nm sample_news_store sample_web))"
    by simp_all
  with a b c d e f g show ?thesis by simp
qed

subsection \<open>C2: loading the tracking file\<close>




subsection \<open>C3: an item of score 0 is never selected\<close>

text \<open>
  Claim C3. A candidate whose relevance score is 0 is never selected and never appears in a
  digest, tracked or not. In \<open>paper_tracker.py\<close> a paper of score 0 is not among the
  relevant papers, whatever the tracked set, and no entry of a digest that is sent or printed
  shows zero stars. In \<open>paper_tracker_v2.py\<close> an entry of score 0 yields no paper, and every
  line of a briefing that is sent or printed links a fetched paper of positive score.
\<close>

theorem zero_score_never_selected:
  "(p_score p = 0 \<longrightarrow> p \<notin> set (relevant tracked papers)) \<and>
   0 \<notin> set (stars_shown (main_pt st w)) \<and>
   (entry_score e = 0 \<longrightarrow> paper_of_entry category e = None) \<and>
   (\<forall>l \<in> set (urls_shown (main_v2 v)).
      \<exists>ps q. fetch_arxiv_papers (feed v) = Inr ps \<and> q \<in> set ps \<and> l = v_url q \<and>
             0 < v_raw_score q)"
  using pt_stars_positive[of st w] paper_of_entry_zero[of e category] v2_urls_shown[of _ v]
  by (auto simp: set_relevant)

text \<open>
  The sample listing holds a paper of score 0: it is parsed, it is not selected, and the
  digest of the run shows the two other papers (sent once, printed once).
\<close>

theorem zero_score_never_selected_witness:
  "p_score plain_paper = 0 \<and>
   plain_paper \<in> set (parse_papers sample_page) \<and>
   plain_paper \<notin> set (relevant [] (parse_papers sample_page)) \<and>
   stars_shown (main_pt None sample_world) = [3, 1, 3, 1] \<and>
   entry_score entry_plain = 0 \<and>
   paper_of_entry ''cs.AI'' entry_plain = None \<and>
   urls_shown (main_v2 sample_v2_world) =
     [''https://arxiv.org/abs/2601.00002'', ''https://arxiv.org/abs/2601.00001'',
      ''https://arxiv.org/abs/2601.00003'', ''https://arxiv.org/abs/2601.00002'',
      ''https://arxiv.org/abs/2601.00001'', ''https://arxiv.org/abs/2601.00003'']"
proof -
  have a: "p_score plain_paper = 0" by (simp add: plain_paper_def)
  have b: "entry_score entry_plain = 0" by code_simp
  have c: "plain_paper \<in> set (parse_papers sample_page)" by code_simp
  have d: "stars_shown (main_pt None sample_world) = [3, 1, 3, 1]" by code_simp
  have e: "urls_shown (main_v2 sample_v2_world) =
     [''https://arxiv.org/abs/2601.00002'', ''https://arxiv.org/abs/2601.00001'',
      ''https://arxiv.org/abs/2601.00003'', ''https://arxiv.org/abs/2601.00002'',
      ''https://arxiv.org/abs/2601.00001'', ''https://arxiv.org/abs/2601.00003'']" by code_simp
  from zero_score_never_selected[where p = plain_paper and tracked = "[]"
      and papers = "parse_papers sample_page" and e = entry_plain and category = "''cs.AI''"] a b
  have "plain_paper \<notin> set (relevant [] (parse_papers sample_page))"
    and "paper_of_entry ''cs.AI'' entry_plain = None" by simp_all
  with a b c d e show ?thesis by simp
qed

subsection \<open>C4: the order of the selected items\<close>

lemma relevant_sorted: "sorted_wrt by_score_then_id (relevant tracked papers)"
proof -
  let ?key = "\<lambda>x. (- int (p_score x), p_id x)"
  have "sorted (map ?key (relevant tracked papers))"
    unfolding relevant_def by (rule sorted_sort_key)
  then have "sorted_wrt (\<lambda>p q. ?key p \<le> ?key q) (relevant tracked papers)"
    by (simp add: sorted_map)
  then show ?thesis
    by (rule sorted_wrt_mono_rel[rotated]) (auto simp: by_score_then_id_def less_eq_prod_def)
qed

lemma unique_papers_sorted: "sorted_wrt R ps \<Longrightarrow> sorted_wrt R (unique_papers seen ps)"
proof (induction seen ps rule: unique_papers.induct)
  case (1 seen)
  then show ?case by simp
next
  case (2 seen p ps)
  then show ?case using set_unique_papers[of "v_id p # seen" ps] by auto
qed

lemma fetch_arxiv_papers_sorted:
  assumes "fetch_arxiv_papers fd = Inr ps"
  shows "sorted_wrt by_score_then_oldest ps"
proof -
  let ?key = "\<lambda>x. (- int (v_raw_score x), v_published x)"
  from assms obtain qs where
    ps: "ps = take max_papers (unique_papers [] (sort_key ?key qs))"
    by (auto simp: fetch_arxiv_papers_def bind_err_def split: sum.splits)
  have "sorted (map ?key (sort_key ?key qs))" by (rule sorted_sort_key)
  then have "sorted_wrt (\<lambda>p q. ?key p \<le> ?key q) (sort_key ?key qs)"
    by (simp add: sorted_map)
  then have "sorted_wrt by_score_then_oldest (sort_key ?key qs)"
    by (rule sorted_wrt_mono_rel[rotated]) (auto simp: by_score_then_oldest_def less_eq_prod_def)
  then show ?thesis unfolding ps by (intro sorted_wrt_take unique_papers_sorted)
qed

text \<open>
  Claim C4, as amended. In \<open>paper_tracker.py\<close> the selected papers are ordered by score
  descending, ties by identifier ascending, and the digest renders the first five in that
  order. In \<open>paper_tracker_v2.py\<close> the fetched papers are ordered by score descending, ties
  by publish date ascending (oldest first); the identifier is no sort key.
\<close>

theorem selected_items_ranked:
  "sorted_wrt by_score_then_id (relevant tracked papers) \<and>
   map e_link (d_entries (message t (relevant tracked papers))) =
     map p_link (take 5 (relevant tracked papers)) \<and>
   (\<forall>ps. fetch_arxiv_papers fd = Inr ps \<longrightarrow> sorted_wrt by_score_then_oldest ps)"
  using relevant_sorted message_links fetch_arxiv_papers_sorted by blast

text \<open>
  On the sample listing the two ranked papers come by score; on the sample feed the three
  papers have the same score and come oldest first.
\<close>

theorem selected_items_ranked_witness:
  "map p_id (relevant [] (parse_papers sample_page)) = [''2601.00002'', ''2601.00001''] \<and>
   map p_score (relevant [] (parse_papers sample_page)) = [3, 1] \<and>
   sorted_wrt by_score_then_id (relevant [] (parse_papers sample_page)) \<and>
   fetch_arxiv_papers sample_feed = Inr sample_ranked \<and>
   sorted_wrt by_score_then_oldest sample_ranked"
proof -
  have a: "map p_id (relevant [] (parse_papers sample_page)) = [''2601.00002'', ''2601.00001'']"
    by code_simp
  have b: "map p_score (relevant [] (parse_papers sample_page)) = [3, 1]"
    by code_simp
  have c: "fetch_arxiv_papers sample_feed = Inr sample_ranked"
    by code_simp
  from selected_items_ranked[of "[]" "parse_papers sample_page" "[]" sample_feed] c
  have "sorted_wrt by_score_then_id (relevant [] (parse_papers sample_page))"
    and "sorted_wrt by_score_then_oldest sample_ranked" by blast+
  with a b c show ?thesis by simp
qed

text \<open>
  The claim as stated fails for \<open>paper_tracker_v2.py\<close>: the API returns the sample entries
  newest first (identifiers 00003, 00002, 00001, all of score 1); the script returns the paper
  of 6 January last, after the two of 5 January, and these two in the order fetched. That is
  neither newest first nor by identifier.
\<close>

theorem v2_ranking_oldest_first:
  "fetch_arxiv_papers sample_feed = Inr sample_ranked \<and>
   map v_id sample_ranked = [''2601.00002'', ''2601.00001'', ''2601.00003''] \<and>
   map v_published sample_ranked = [''2026-01-05'', ''2026-01-05'', ''2026-01-06''] \<and>
   map v_raw_score sample_ranked = [1, 1, 1] \<and>
   \<not> sorted_wrt by_score_then_newest_then_id sample_ranked \<and>
   \<not> sorted_wrt by_score_then_id_v2 sample_ranked"
proof -
  have "fetch_arxiv_papers sample_feed = Inr sample_ranked" by code_simp
  moreover have "\<not> sorted_wrt by_score_then_newest_then_id sample_ranked"
    by (simp add: sample_ranked_def by_score_then_newest_then_id_def)
  moreover have "\<not> sorted_wrt by_score_then_id_v2 sample_ranked"
    by (simp add: sample_ranked_def by_score_then_id_v2_def)
  ultimately show ?thesis by (simp add: sample_ranked_def)
qed

subsection \<open>C5: running twice on the same input\<close>





subsection \<open>C6: a run that selects nothing leaves everything as it was\<close>

lemma pt_no_attempt:
  "attempts (main_pt st w) = [] \<Longrightarrow> store_after (main_pt st w) = st \<and> digests (main_pt st w) = []"
  by (cases rule: main_pt_cases[of st w]) (auto simp: aborted_def digests_def)

lemma nm_no_attempt:
  "attempts (main_nm st w) = [] \<Longrightarrow> store_after (main_nm st w) = st \<and> digests (main_nm st w) = []"
  by (cases rule: main_nm_cases[of st w]) (auto simp: aborted_def digests_def)

text \<open>
  Claim C6. If every category yields no selected item, the run builds no digest, attempts no
  delivery and does not write the tracking file: the file after the run is the file before
  it. In \<open>paper_tracker.py\<close> and in \<open>news_monitor.py\<close> such a run prints that there is
  nothing new and ends; more generally, a run that attempted no delivery printed no digest
  and left the file as it was.
\<close>

theorem no_selection_is_noop:
  "(load_tracked st = Inr (tracked, last_run) \<and> arxiv w = Some html \<and>
      relevant tracked (parse_papers html) = [] \<longrightarrow>
      main_pt st w = \<lparr>store_after = st, attempts = [],
                       console = [Banner, Found [0], Nothing_new], raised = None\<rparr>) \<and>
   (attempts (main_pt st w) = [] \<longrightarrow>
      store_after (main_pt st w) = st \<and> digests (main_pt st w) = []) \<and>
   (load_config st' = Inr config \<and> nm_select config v = Inr ([], [], [], []) \<longrightarrow>
      main_nm st' v = \<lparr>store_after = st', attempts = [],
                        console = [Banner, Found [0, 0, 0, 0], Nothing_new], raised = None\<rparr>) \<and>
   (attempts (main_nm st' v) = [] \<longrightarrow>
      store_after (main_nm st' v) = st' \<and> digests (main_nm st' v) = [])"
  using pt_nothing_new[of st tracked last_run w html] pt_no_attempt[of st w]
    nm_nothing_new[of st' config v] nm_no_attempt[of st' v]
  by blast

text \<open>
  The tracked paper is the only relevant one of the listing, and no page can be fetched for
  the news monitor: both runs end with nothing new, the paper file as it was and the news
  file still absent.
\<close>

theorem no_selection_is_noop_witness:
  "load_tracked sample_paper_store = Inr ([JStr ''2601.00002''], JStr ''2026-01-06T08:00:00'') \<and>
   relevant [JStr ''2601.00002''] (parse_papers lone_page) = [] \<and>
   main_pt sample_paper_store \<lparr>arxiv = Some lone_page, gateway = Some ''ok'', now = ''t''\<rparr> =
     \<lparr>store_after = sample_paper_store, attempts = [],
      console = [Banner, Found [0], Nothing_new], raised = None\<rparr> \<and>
   load_config None = Inr default_config \<and>
   nm_select default_config quiet_web = Inr ([], [], [], []) \<and>
   main_nm None quiet_web =
     \<lparr>store_after = None, attempts = [],
      console = [Banner, Found [0, 0, 0, 0], Nothing_new], raised = None\<rparr>"
proof -
  have a: "load_tracked sample_paper_store =
             Inr ([JStr ''2601.00002''], JStr ''2026-01-06T08:00:00'')" by code_simp
  have b: "relevant [JStr ''2601.00002''] (parse_papers lone_page) = []" by code_simp
  have c: "load_config None = Inr default_config" by simp
  have d: "nm_select default_config quiet_web = Inr ([], [], [], [])" by code_simp
  from no_selection_is_noop[of sample_paper_store "[JStr ''2601.00002'']"
      "JStr ''2026-01-06T08:00:00''" "\<lparr>arxiv = Some lone_page, gateway = Some ''ok'', now = ''t''\<rparr>"
      lone_page None default_config quiet_web] a b c d
  show ?thesis by simp
qed

subsection \<open>C7: a failed delivery changes nothing but the console\<close>

lemma pt_run_completes:
  "load_tracked st = Inr (tracked, last_run) \<Longrightarrow> arxiv w = Some html \<Longrightarrow>
     raised (main_pt st w) = None"
  by (cases rule: main_pt_cases[of st w]) (auto simp: aborted_def)

text \<open>
  Claim C7. When the delivery of the digest fails, the digest is printed instead, the run
  completes, and every selected item is tracked and the tracking state persisted exactly as
  on a successful delivery. For both scripts: the file the run leaves, the exception it ends
  with (if any) and the message handed to the gateway do not depend on the gateway's answer;
  when the gateway fails, every message handed to it is printed; a run of
  \<open>paper_tracker.py\<close> that loaded its state and fetched its page completes, a run of
  \<open>news_monitor.py\<close> on a well-shaped state completes, and the file left by the run tracks
  every selected identifier.
\<close>

theorem failed_delivery_still_tracks:
  "(gateway w = None \<longrightarrow>
      (\<forall>m \<in> set (attempts (main_pt st w)). Shown m \<in> set (console (main_pt st w))) \<and>
      store_after (main_pt st w) = store_after (main_pt st (w\<lparr>gateway := Some body\<rparr>)) \<and>
      raised (main_pt st w) = raised (main_pt st (w\<lparr>gateway := Some body\<rparr>)) \<and>
      attempts (main_pt st w) = attempts (main_pt st (w\<lparr>gateway := Some body\<rparr>))) \<and>
   (gateway w = None \<and> load_tracked st = Inr (tracked, last_run) \<and> arxiv w = Some html \<longrightarrow>
      raised (main_pt st w) = None \<and>
      (\<exists>tracked' last_run'.
         load_tracked (store_after (main_pt st w)) = Inr (tracked', last_run') \<and>
         (\<forall>p \<in> set (relevant tracked (parse_papers html)). py_in (JStr (p_id p)) tracked'))) \<and>
   (nm_gateway v = None \<longrightarrow>
      (\<forall>m \<in> set (attempts (main_nm st' v)). Shown m \<in> set (console (main_nm st' v))) \<and>
      store_after (main_nm st' v) = store_after (main_nm st' (v\<lparr>nm_gateway := Some body\<rparr>)) \<and>
      raised (main_nm st' v) = raised (main_nm st' (v\<lparr>nm_gateway := Some body\<rparr>)) \<and>
      attempts (main_nm st' v) = attempts (main_nm st' (v\<lparr>nm_gateway := Some body\<rparr>))) \<and>
   (nm_gateway v = None \<and> load_config st' = Inr config \<and> wf_config config \<and>
      nm_select config v = Inr sel \<longrightarrow>
      raised (main_nm st' v) = None \<and>
      (\<exists>config'.
         load_config (store_after (main_nm st' v)) = Inr config' \<and>
         (\<forall>key \<in> set categories. \<forall>u \<in> set (selected_urls key sel). is_tracked config' key u)))"
proof -
  have pt1: "gateway w = None \<longrightarrow>
      (\<forall>m \<in> set (attempts (main_pt st w)). Shown m \<in> set (console (main_pt st w)))"
    using pt_failed_delivery_printed[where w = w and st = st] by blast
  have pt2: "store_after (main_pt st w) = store_after (main_pt st (w\<lparr>gateway := Some body\<rparr>)) \<and>
      raised (main_pt st w) = raised (main_pt st (w\<lparr>gateway := Some body\<rparr>)) \<and>
      attempts (main_pt st w) = attempts (main_pt st (w\<lparr>gateway := Some body\<rparr>))"
    using pt_gateway_irrelevant[where st = st and w = w and g = "Some body"] by simp
  have pt3: "raised (main_pt st w) = None \<and>
      (\<exists>tracked' last_run'.
         load_tracked (store_after (main_pt st w)) = Inr (tracked', last_run') \<and>
         (\<forall>p \<in> set (relevant tracked (parse_papers html)). py_in (JStr (p_id p)) tracked'))"
    if "load_tracked st = Inr (tracked, last_run)" "arxiv w = Some html"
    using pt_run_completes[OF that] pt_store_after[OF that(1), of w] that(2) by blast
  have nm1: "nm_gateway v = None \<longrightarrow>
      (\<forall>m \<in> set (attempts (main_nm st' v)). Shown m \<in> set (console (main_nm st' v)))"
    using nm_failed_delivery_printed[where w = v and st = st'] by blast
  have nm2: "store_after (main_nm st' v) = store_after (main_nm st' (v\<lparr>nm_gateway := Some body\<rparr>)) \<and>
      raised (main_nm st' v) = raised (main_nm st' (v\<lparr>nm_gateway := Some body\<rparr>)) \<and>
      attempts (main_nm st' v) = attempts (main_nm st' (v\<lparr>nm_gateway := Some body\<rparr>))"
    using nm_gateway_irrelevant[where st = st' and w = v and g = "Some body"] by simp
  have nm3: "raised (main_nm st' v) = None \<and>
      (\<exists>config'.
         load_config (store_after (main_nm st' v)) = Inr config' \<and>
         (\<forall>key \<in> set categories. \<forall>u \<in> set (selected_urls key sel). is_tracked config' key u))"
    if "load_config st' = Inr config" "wf_config config" "nm_select config v = Inr sel"
    using nm_run_completes[OF that(1,2), of v] nm_store_after[OF that(1), of v] that(3) by blast
  from pt1 pt2 pt3 nm1 nm2 nm3 show ?thesis by blast
qed

text \<open>
  The gateway is down in both sample runs: the digest is printed, the run completes, and the
  file left is the one a successful delivery leaves, with the selected identifiers tracked.
\<close>

theorem failed_delivery_still_tracks_witness:
  "gateway sample_world = None \<and>
   load_tracked None = Inr ([], JNull) \<and>
   arxiv sample_world = Some sample_page \<and>
   map p_id (relevant [] (parse_papers sample_page)) = [''2601.00002'', ''2601.00001''] \<and>
   raised (main_pt None sample_world) = None \<and>
   shown (console (main_pt None sample_world)) = attempts (main_pt None sample_world) \<and>
   length (attempts (main_pt None sample_world)) = 1 \<and>
   store_after (main_pt None sample_world) =
     store_after (main_pt None (sample_world\<lparr>gateway := Some ''ok''\<rparr>)) \<and>
   load_tracked (store_after (main_pt None sample_world)) =
     Inr ([JStr ''2601.00002'', JStr ''2601.00001''], JStr ''2026-01-07T08:00:00'') \<and>
   nm_gateway sample_web = None \<and>
   load_config sample_news_store = Inr sample_news_config \<and>
   wf_config sample_news_config \<and>
   raised (main_nm sample_news_store sample_web) = None \<and>
   shown (console (main_nm sample_news_store sample_web)) =
     attempts (main_nm sample_news_store sample_web) \<and>
   length (attempts (main_nm sample_news_store sample_web)) = 1 \<and>
   store_after (main_nm sample_news_store sample_web) =
     store_after (main_nm sample_news_store (sample_web\<lparr>nm_gateway := Some ''ok''\<rparr>))"
proof -
  have a: "gateway sample_world = None" "arxiv sample_world = Some sample_page"
    by (simp_all add: sample_world_def)
  have b: "load_tracked None = Inr ([], JNull)" by simp
  have c: "map p_id (relevant [] (parse_papers sample_page)) = [''2601.00002'', ''2601.00001'']"
    by code_simp
  have d: "shown (console (main_pt None sample_world)) = attempts (main_pt None sample_world)"
    "length (attempts (main_pt None sample_world)) = 1" by code_simp+
  have e: "load_tracked (store_after (main_pt None sample_world)) =
     Inr ([JStr ''2601.00002'', JStr ''2601.00001''], JStr ''2026-01-07T08:00:00'')" by code_simp
  have f: "nm_gateway sample_web = None" by (simp add: sample_web_def)
  have g: "load_config sample_news_store = Inr sample_news_config"
    by (simp add: sample_news_store_def)
  have h: "wf_config sample_news_config" by code_simp
  have i: "shown (console (main_nm sample_news_store sample_web)) =
     attempts (main_nm sample_news_store sample_web)"
    "length (attempts (main_nm sample_news_store sample_web)) = 1" by code_simp+
  obtain sel where sel: "nm_select sample_news_config sample_web = Inr sel"
    using nm_select_ok[OF h] by blast
  from failed_delivery_still_tracks[where w = sample_world and st = None and body = "''ok''"
      and tracked = "[]" and last_run = JNull and html = sample_page and v = sample_web
      and st' = sample_news_store and config = sample_news_config and sel = sel] a b f g h sel
  have "raised (main_pt None sample_world) = None"
    and "store_after (main_pt None sample_world) =
           store_after (main_pt None (sample_world\<lparr>gateway := Some ''ok''\<rparr>))"
    and "raised (main_nm sample_news_store sample_web) = None"
    and "store_after (main_nm sample_news_store sample_web) =
           store_after (main_nm sample_news_store (sample_web\<lparr>nm_gateway := Some ''ok''\<rparr>))"
    by blast+
  with a b c d e f g h i show ?thesis by simp
qed

subsection \<open>C8: a source whose fetch failed\<close>

lemma conference_short: "length (conference name url html) \<le> 1"
  by (simp add: conference_def split: option.splits)

lemma parse_conferences_nips_failed:
  "parse_conferences None iclr = conference ''ICLR 2025'' ''https://iclr.cc/conference/2025'' iclr"
  using conference_short[of "''ICLR 2025''" "''https://iclr.cc/conference/2025''" iclr]
  by (simp add: parse_conferences_def conference_def)

lemma parse_conferences_iclr_failed:
  "parse_conferences nips None = conference ''NeurIPS 2025'' ''https://nips.cc/Conferences/2025'' nips"
  using conference_short[of "''NeurIPS 2025''" "''https://nips.cc/Conferences/2025''" nips]
  by (simp add: parse_conferences_def conference_def)

lemma fetch_all_timeout:
  "category \<in> set cs \<Longrightarrow> fd category = Timeout \<Longrightarrow> fetch_all fd cs = Inl TimeoutExpired"
proof (induction cs)
  case Nil
  then show ?case by simp
next
  case (Cons c cs)
  show ?case
  proof (cases "fd c")
    case Timeout
    then show ?thesis by simp
  next
    case (Stdout entries)
    then have "c \<noteq> category" using Cons.prems(2) by auto
    then have "fetch_all fd cs = Inl TimeoutExpired" using Cons by simp
    then show ?thesis using Stdout by simp
  qed
qed

text \<open>
  Claim C8, as amended. In \<open>news_monitor.py\<close>, an adapter whose page could not be fetched
  returns no item; the candidates of the other categories (and of the other conference or
  blog) are what they are with the page fetched; the run is the run on an empty page, and on
  a well-shaped tracking state it completes whatever pages could not be fetched.
  In \<open>paper_tracker.py\<close> the one fetch runs with \<^verbatim>\<open>check=True\<close> and no handler: when it
  fails, the run ends with the exception before anything is selected, sent or written. In
  \<open>paper_tracker_v2.py\<close> a fetch that times out ends the run with the exception.
\<close>

theorem failed_fetch_isolated_or_raised:
  "parse_hacker_news None = [] \<and>
   parse_github_trending None fetch_repo = [] \<and>
   conference name url None = [] \<and>
   blog_posts_of name url None = [] \<and>
   candidates ''tracked_hn'' (v\<lparr>hn_page := None\<rparr>) = [] \<and>
   candidates ''tracked_gh'' (v\<lparr>gh_page := None\<rparr>) = [] \<and>
   candidates ''tracked_conf'' (v\<lparr>nips_page := None\<rparr>) =
     map conf_url (conference ''ICLR 2025'' ''https://iclr.cc/conference/2025'' (iclr_page v)) \<and>
   candidates ''tracked_conf'' (v\<lparr>iclr_page := None\<rparr>) =
     map conf_url (conference ''NeurIPS 2025'' ''https://nips.cc/Conferences/2025'' (nips_page v)) \<and>
   (key \<noteq> ''tracked_hn'' \<longrightarrow> candidates key (v\<lparr>hn_page := None\<rparr>) = candidates key v) \<and>
   (key \<noteq> ''tracked_gh'' \<longrightarrow> candidates key (v\<lparr>gh_page := None\<rparr>) = candidates key v) \<and>
   (key \<noteq> ''tracked_conf'' \<longrightarrow>
      candidates key (v\<lparr>nips_page := None\<rparr>) = candidates key v \<and>
      candidates key (v\<lparr>iclr_page := None\<rparr>) = candidates key v) \<and>
   (key \<noteq> ''tracked_blog'' \<longrightarrow>
      candidates key (v\<lparr>blog_page := (\<lambda>u. None)\<rparr>) = candidates key v) \<and>
   main_nm st (v\<lparr>hn_page := None\<rparr>) = main_nm st (v\<lparr>hn_page := Some []\<rparr>) \<and>
   main_nm st (v\<lparr>gh_page := None\<rparr>) = main_nm st (v\<lparr>gh_page := Some []\<rparr>) \<and>
   (load_config st = Inr config \<and> wf_config config \<longrightarrow> raised (main_nm st v) = None) \<and>
   (load_tracked st' = Inr (tracked, last_run) \<and> arxiv w = None \<longrightarrow>
      main_pt st' w = \<lparr>store_after = st', attempts = [], console = [Banner],
                       raised = Some CalledProcessError\<rparr>) \<and>
   (category \<in> set arxiv_categories \<and> fd category = Timeout \<longrightarrow>
      fetch_arxiv_papers fd = Inl TimeoutExpired)"
proof -
  have hn: "main_nm st (v\<lparr>hn_page := None\<rparr>) = main_nm st (v\<lparr>hn_page := Some []\<rparr>)"
    by (cases "load_config st")
       (simp_all add: main_nm_def parse_hacker_news_def Let_def split: sum.splits prod.splits)
  have gh: "main_nm st (v\<lparr>gh_page := None\<rparr>) = main_nm st (v\<lparr>gh_page := Some []\<rparr>)"
    by (cases "load_config st")
       (simp_all add: main_nm_def parse_github_trending_def Let_def split: sum.splits prod.splits)
  have nm: "raised (main_nm st v) = None" if "load_config st = Inr config" "wf_config config"
    using nm_run_completes[OF that] by simp
  have pt: "main_pt st' w = \<lparr>store_after = st', attempts = [], console = [Banner],
                       raised = Some CalledProcessError\<rparr>"
    if "load_tracked st' = Inr (tracked, last_run)" "arxiv w = None"
    using that by (simp add: main_pt_def fetch_arxiv_list_def aborted_def)
  have v2: "fetch_arxiv_papers fd = Inl TimeoutExpired"
    if "category \<in> set arxiv_categories" "fd category = Timeout"
    using fetch_all_timeout[where fd = fd and category = category and cs = arxiv_categories] that
    by (simp add: fetch_arxiv_papers_def)
  have adapters: "parse_hacker_news None = []" "parse_github_trending None fetch_repo = []"
    "conference name url None = []" "blog_posts_of name url None = []"
    by (simp_all add: parse_hacker_news_def parse_github_trending_def conference_def
          blog_posts_of_def)
  have cands: "candidates ''tracked_hn'' (v\<lparr>hn_page := None\<rparr>) = []"
    "candidates ''tracked_gh'' (v\<lparr>gh_page := None\<rparr>) = []"
    "candidates ''tracked_conf'' (v\<lparr>nips_page := None\<rparr>) =
       map conf_url (conference ''ICLR 2025'' ''https://iclr.cc/conference/2025'' (iclr_page v))"
    "candidates ''tracked_conf'' (v\<lparr>iclr_page := None\<rparr>) =
       map conf_url (conference ''NeurIPS 2025'' ''https://nips.cc/Conferences/2025'' (nips_page v))"
    by (simp_all add: candidates_def parse_hacker_news_def parse_github_trending_def
          parse_conferences_nips_failed parse_conferences_iclr_failed)
  have others: "key \<noteq> ''tracked_hn'' \<longrightarrow> candidates key (v\<lparr>hn_page := None\<rparr>) = candidates key v"
    "key \<noteq> ''tracked_gh'' \<longrightarrow> candidates key (v\<lparr>gh_page := None\<rparr>) = candidates key v"
    "key \<noteq> ''tracked_conf'' \<longrightarrow>
      candidates key (v\<lparr>nips_page := None\<rparr>) = candidates key v \<and>
      candidates key (v\<lparr>iclr_page := None\<rparr>) = candidates key v"
    "key \<noteq> ''tracked_blog'' \<longrightarrow>
      candidates key (v\<lparr>blog_page := (\<lambda>u. None)\<rparr>) = candidates key v"
    by (simp_all add: candidates_def)
  from hn gh nm pt v2 adapters cands others show ?thesis by blast
qed

text \<open>
  In the sample run of the news monitor the GitHub, ICLR and blog pages could not be fetched:
  these sources give no item, the story and the NeurIPS page are selected and the run
  completes. The paper tracker's run on a failed fetch ends with the exception, and so does
  the fetch of the second script when the second category times out.
\<close>

theorem failed_fetch_isolated_or_raised_witness:
  "gh_page sample_web = None \<and> iclr_page sample_web = None \<and>
   candidates ''tracked_gh'' sample_web = [] \<and>
   candidates ''tracked_blog'' sample_web = [] \<and>
   candidates ''tracked_conf'' sample_web = [''https://nips.cc/Conferences/2025''] \<and>
   candidates ''tracked_hn'' sample_web =
     [''https://news.ycombinator.com/item?id=1'', ''https://example.org/gpt''] \<and>
   load_config sample_news_store = Inr sample_news_config \<and>
   wf_config sample_news_config \<and>
   raised (main_nm sample_news_store sample_web) = None \<and>
   load_tracked None = Inr ([], JNull) \<and>
   arxiv (sample_world\<lparr>arxiv := None\<rparr>) = None \<and>
   main_pt None (sample_world\<lparr>arxiv := None\<rparr>) =
     \<lparr>store_after = None, attempts = [], console = [Banner],
      raised = Some CalledProcessError\<rparr> \<and>
   ''cs.LG'' \<in> set arxiv_categories \<and>
   fetch_arxiv_papers (\<lambda>category. if category = ''cs.LG'' then Timeout else Stdout []) =
     Inl TimeoutExpired"
proof -
  have a: "gh_page sample_web = None" "iclr_page sample_web = None"
    by (simp_all add: sample_web_def)
  have b: "candidates ''tracked_gh'' sample_web = []"
    "candidates ''tracked_blog'' sample_web = []"
    "candidates ''tracked_conf'' sample_web = [''https://nips.cc/Conferences/2025'']"
    "candidates ''tracked_hn'' sample_web =
       [''https://news.ycombinator.com/item?id=1'', ''https://example.org/gpt'']"
    by code_simp+
  have c: "load_config sample_news_store = Inr sample_news_config"
    by (simp add: sample_news_store_def)
  have d: "wf_config sample_news_config" by code_simp
  have e: "load_tracked None = Inr ([], JNull)" by simp
  have f: "arxiv (sample_world\<lparr>arxiv := None\<rparr>) = None" by simp
  from failed_fetch_isolated_or_raised[where st = sample_news_store and config = sample_news_config
      and v = sample_web and st' = None and tracked = "[]" and last_run = JNull
      and w = "sample_world\<lparr>arxiv := None\<rparr>"] c d e f
  have "raised (main_nm sample_news_store sample_web) = None"
    and "main_pt None (sample_world\<lparr>arxiv := None\<rparr>) =
     \<lparr>store_after = None, attempts = [], console = [Banner],
      raised = Some CalledProcessError\<rparr>"
    by blast+
  moreover have g: "''cs.LG'' \<in> set arxiv_categories" by (simp add: arxiv_categories_def)
  moreover from failed_fetch_isolated_or_raised[where category = "''cs.LG''"
      and fd = "\<lambda>category. if category = ''cs.LG'' then Timeout else Stdout []"] g
  have "fetch_arxiv_papers (\<lambda>category. if category = ''cs.LG'' then Timeout else Stdout []) =
          Inl TimeoutExpired" by simp
  ultimately show ?thesis using a b c d e f by simp
qed

text \<open>
  The claim as stated fails for \<open>paper_tracker.py\<close>: when the listing cannot be fetched,
  \<open>fetch_arxiv_list\<close> raises instead of giving an empty page, and the run ends with that
  exception, having printed its banner only.
\<close>

theorem paper_tracker_fetch_failure_aborts:
  "fetch_arxiv_list None = Inl CalledProcessError \<and>
   raised (main_pt None \<lparr>arxiv = None, gateway = Some ''ok'', now = ''2026-01-07T08:00:00''\<rparr>) =
     Some CalledProcessError \<and>
   console (main_pt None \<lparr>arxiv = None, gateway = Some ''ok'', now = ''2026-01-07T08:00:00''\<rparr>) =
     [Banner]"
  by (simp add: fetch_arxiv_list_def main_pt_def aborted_def)

subsection \<open>C9: selected identifiers are persisted, and the tracked sets only grow\<close>

lemma nm_failed_load_store: "load_config st = Inl e \<Longrightarrow> store_after (main_nm st w) = st"
  by (simp add: main_nm_def aborted_def)

text \<open>
  Claim C9. After a run that selects items, reloading the persisted state shows each selected
  identifier under its category, and across successive runs no identifier tracked before a
  run is missing after it. For \<open>paper_tracker.py\<close>: the file a run leaves loads again, to a
  set that holds every identifier tracked before and every paper selected by the run, and
  so does the file left by any chain of runs. For \<open>news_monitor.py\<close>: the file a run leaves
  loads again and tracks, under each category, every link tracked before and, when the run
  completed (as it does on a well-shaped state), every link it selected; likewise along any
  chain of runs. A run whose load raised leaves the file as it was.
\<close>

theorem tracked_identifiers_persist_and_grow:
  "(load_tracked st = Inr (tracked, last_run) \<longrightarrow>
      (\<exists>tracked' last_run'.
         load_tracked (store_after (main_pt st w)) = Inr (tracked', last_run') \<and>
         (\<forall>x. py_in x tracked \<longrightarrow> py_in x tracked') \<and>
         (\<forall>html. arxiv w = Some html \<longrightarrow>
            (\<forall>p \<in> set (relevant tracked (parse_papers html)). py_in (JStr (p_id p)) tracked')))) \<and>
   (load_tracked st = Inr (tracked, last_run) \<and> py_in x tracked \<longrightarrow>
      (\<exists>tracked' last_run'.
         load_tracked (final_store st ws) = Inr (tracked', last_run') \<and> py_in x tracked')) \<and>
   (load_tracked st = Inl e \<longrightarrow> store_after (main_pt st w) = st) \<and>
   (load_config st' = Inr config \<longrightarrow>
      (\<exists>config'.
         load_config (store_after (main_nm st' v)) = Inr config' \<and>
         (\<forall>key \<in> set categories. \<forall>u. is_tracked config key u \<longrightarrow> is_tracked config' key u) \<and>
         (raised (main_nm st' v) = None \<longrightarrow>
            (\<forall>sel. nm_select config v = Inr sel \<longrightarrow>
               (\<forall>key \<in> set categories. \<forall>u \<in> set (selected_urls key sel).
                  is_tracked config' key u))))) \<and>
   (load_config st' = Inr config \<and> wf_config config \<longrightarrow> raised (main_nm st' v) = None) \<and>
   (load_config st' = Inr config \<and> key \<in> set categories \<and> is_tracked config key u \<longrightarrow>
      (\<exists>config'. load_config (final_store_nm st' vs) = Inr config' \<and> is_tracked config' key u)) \<and>
   (load_config st' = Inl e' \<longrightarrow> store_after (main_nm st' v) = st')"
  using pt_store_after[of st tracked last_run w]
    final_store_keeps[of st tracked last_run x ws]
    pt_failed_load_store[of st e w]
    nm_store_after[of st' config v]
    nm_run_completes[of st' config v]
    final_store_nm_keeps[of st' config key u vs]
    nm_failed_load_store[of st' e' v]
  by blast

text \<open>
  A run on the sample listing starts with 2601.00002 tracked and selects 2601.00001: the
  file it leaves holds both, and still does after a second run. The news run starts with
  one story tracked and selects another story and a conference page: all three are tracked
  in the file it leaves.
\<close>

theorem tracked_identifiers_persist_and_grow_witness:
  "load_tracked sample_paper_store = Inr ([JStr ''2601.00002''], JStr ''2026-01-06T08:00:00'') \<and>
   py_in (JStr ''2601.00002'') [JStr ''2601.00002''] \<and>
   arxiv sample_world = Some sample_page \<and>
   map p_id (relevant [JStr ''2601.00002''] (parse_papers sample_page)) = [''2601.00001''] \<and>
   load_tracked (store_after (main_pt sample_paper_store sample_world)) =
     Inr ([JStr ''2601.00002'', JStr ''2601.00001''], JStr ''2026-01-07T08:00:00'') \<and>
   py_in (JStr ''2601.00002'') [JStr ''2601.00002'', JStr ''2601.00001''] \<and>
   py_in (JStr ''2601.00001'') [JStr ''2601.00002'', JStr ''2601.00001''] \<and>
   load_tracked (final_store sample_paper_store [sample_world, busy_world]) =
     Inr (map JStr [''2601.00002'', ''2601.00001'', ''2601.00005'', ''2601.00003'',
                    ''2601.00004'', ''2601.00006'', ''2601.00007''],
          JStr ''2026-01-08T08:00:00'') \<and>
   py_in (JStr ''2601.00002'')
     (map JStr [''2601.00002'', ''2601.00001'', ''2601.00005'', ''2601.00003'',
                ''2601.00004'', ''2601.00006'', ''2601.00007'']) \<and>
   load_config sample_news_store = Inr sample_news_config \<and>
   wf_config sample_news_config \<and>
   is_tracked sample_news_config ''tracked_hn'' ''https://example.org/gpt'' \<and>
   raised (main_nm sample_news_store sample_web) = None \<and>
   load_config (store_after (main_nm sample_news_store sample_web)) =
     Inr (JDict [(''tracked_hn'', JList [JStr ''https://example.org/gpt'',
                                        JStr ''https://news.ycombinator.com/item?id=1'']),
                 (''tracked_gh'', JList []),
                 (''tracked_conf'', JList [JStr ''https://nips.cc/Conferences/2025'']),
                 (''last_run'', JStr ''01-07 08:00'')]) \<and>
   is_tracked
     (JDict [(''tracked_hn'', JList [JStr ''https://example.org/gpt'',
                                    JStr ''https://news.ycombinator.com/item?id=1'']),
             (''tracked_gh'', JList []),
             (''tracked_conf'', JList [JStr ''https://nips.cc/Conferences/2025'']),
             (''last_run'', JStr ''01-07 08:00'')])
     ''tracked_hn'' ''https://example.org/gpt''"
proof -
  let ?paper = "\<lparr>p_id = ''2601.00001'', p_link = ''https://arxiv.org/2601.00001'',
                  p_title = ''Agent Planning'', p_abstract = [], p_score = 1\<rparr>"
  have a: "load_tracked sample_paper_store =
             Inr ([JStr ''2601.00002''], JStr ''2026-01-06T08:00:00'')" by code_simp
  have b: "py_in (JStr ''2601.00002'') [JStr ''2601.00002'']" by code_simp
  have b': "arxiv sample_world = Some sample_page" by (simp add: sample_world_def)
  have c: "map p_id (relevant [JStr ''2601.00002''] (parse_papers sample_page)) = [''2601.00001'']"
    by code_simp
  have c': "?paper \<in> set (relevant [JStr ''2601.00002''] (parse_papers sample_page))"
    by code_simp
  have d: "load_tracked (store_after (main_pt sample_paper_store sample_world)) =
     Inr ([JStr ''2601.00002'', JStr ''2601.00001''], JStr ''2026-01-07T08:00:00'')" by code_simp
  have e: "load_tracked (final_store sample_paper_store [sample_world, busy_world]) =
     Inr (map JStr [''2601.00002'', ''2601.00001'', ''2601.00005'', ''2601.00003'',
                    ''2601.00004'', ''2601.00006'', ''2601.00007''],
          JStr ''2026-01-08T08:00:00'')" by code_simp
  have f: "load_config sample_news_store = Inr sample_news_config"
    by (simp add: sample_news_store_def)
  have g: "wf_config sample_news_config" by code_simp
  have h: "is_tracked sample_news_config ''tracked_hn'' ''https://example.org/gpt''" by code_simp
  have h': "''tracked_hn'' \<in> set categories" by (simp add: categories_def)
  have i: "load_config (store_after (main_nm sample_news_store sample_web)) =
     Inr (JDict [(''tracked_hn'', JList [JStr ''https://example.org/gpt'',
                                        JStr ''https://news.ycombinator.com/item?id=1'']),
                 (''tracked_gh'', JList []),
                 (''tracked_conf'', JList [JStr ''https://nips.cc/Conferences/2025'']),
                 (''last_run'', JStr ''01-07 08:00'')])" by code_simp
  note inst = tracked_identifiers_persist_and_grow[where st = sample_paper_store
      and tracked = "[JStr ''2601.00002'']" and last_run = "JStr ''2026-01-06T08:00:00''"
      and w = sample_world and x = "JStr ''2601.00002''" and ws = "[sample_world, busy_world]"
      and st' = sample_news_store and config = sample_news_config and v = sample_web
      and key = "''tracked_hn''" and u = "''https://example.org/gpt''" and vs = "[]"]
  from inst a b b' c' d
  have j: "py_in (JStr ''2601.00002'') [JStr ''2601.00002'', JStr ''2601.00001'']"
    "py_in (JStr ''2601.00001'') [JStr ''2601.00002'', JStr ''2601.00001'']"
    by fastforce+
  from inst a b e
  have k: "py_in (JStr ''2601.00002'')
     (map JStr [''2601.00002'', ''2601.00001'', ''2601.00005'', ''2601.00003'',
                ''2601.00004'', ''2601.00006'', ''2601.00007''])"
    by fastforce
  from inst f g have l: "raised (main_nm sample_news_store sample_web) = None" by blast
  from inst f h h' i
  have m: "is_tracked
     (JDict [(''tracked_hn'', JList [JStr ''https://example.org/gpt'',
                                    JStr ''https://news.ycombinator.com/item?id=1'']),
             (''tracked_gh'', JList []),
             (''tracked_conf'', JList [JStr ''https://nips.cc/Conferences/2025'']),
             (''last_run'', JStr ''01-07 08:00'')])
     ''tracked_hn'' ''https://example.org/gpt''"
    by fastforce
  from a b b' c d e f g h i j k l m show ?thesis by simp
qed

subsection \<open>C10: papers beyond the five rendered are tracked all the same\<close>

lemma relevant_distinct_ids:
  "distinct (map p_id papers) \<Longrightarrow> distinct (map p_id (relevant tracked papers))"
  by (simp add: relevant_def distinct_map inj_on_def distinct_map_filter)

lemma beyond_cap_not_rendered:
  assumes "distinct (map p_id rel)" and "p \<in> set (drop 5 rel)" and "q \<in> set (take 5 rel)"
  shows "p_id q \<noteq> p_id p"
proof -
  have "distinct (map p_id (take 5 rel) @ map p_id (drop 5 rel))"
    using assms(1) by (simp flip: map_append)
  then have "set (map p_id (take 5 rel)) \<inter> set (map p_id (drop 5 rel)) = {}"
    by simp
  then show ?thesis using assms(2,3) by auto
qed

text \<open>
  Claim C10. When a run of \<open>paper_tracker.py\<close> finds more than five new relevant papers,
  the digest renders five entries, and every paper ranked below them is tracked in the file
  the run leaves. Such a paper is shown by no later run, whatever the later runs fetch; where
  identifiers are unique in the listing this run does not show it either; and no earlier run
  of the chain that led to this file has shown it.
\<close>

theorem papers_beyond_cap_tracked_unseen:
  assumes "load_tracked st = Inr (tracked, last_run)" and "arxiv w = Some html"
    and "rel = relevant tracked (parse_papers html)" and "5 < length rel"
    and "p \<in> set (drop 5 rel)"
  shows "length (d_entries (message (now w) rel)) = 5 \<and>
         attempts (main_pt st w) = [message (now w) rel] \<and>
         (\<exists>tracked' last_run'.
            load_tracked (store_after (main_pt st w)) = Inr (tracked', last_run') \<and>
            py_in (JStr (p_id p)) tracked') \<and>
         (\<forall>r \<in> set (runs_pt (store_after (main_pt st w)) ws).
            arxiv_link (p_id p) \<notin> set (links_shown r)) \<and>
         (distinct (map p_id (parse_papers html)) \<longrightarrow>
            arxiv_link (p_id p) \<notin> set (links_shown (main_pt st w))) \<and>
         (\<forall>st0 ws0. st = final_store st0 ws0 \<longrightarrow>
            (\<forall>r \<in> set (runs_pt st0 ws0). arxiv_link (p_id p) \<notin> set (links_shown r)))"
proof -
  have p_rel: "p \<in> set rel" using assms(5) by (rule in_set_dropD)
  have untracked: "\<not> py_in (JStr (p_id p)) tracked"
    using p_rel set_relevant[of tracked "parse_papers html"] assms(3) by auto
  have "rel \<noteq> []" using assms(4) by auto
  have five: "length (d_entries (message (now w) rel)) = 5"
    using assms(4) by (simp add: message_def)
  have sent: "attempts (main_pt st w) = [message (now w) rel]"
    using assms(1,2,3) \<open>rel \<noteq> []\<close> by (cases rule: main_pt_cases[of st w]) (auto simp: aborted_def)
  from pt_store_after[OF assms(1), of w] assms(2,3) p_rel obtain tracked' last_run' where
    L: "load_tracked (store_after (main_pt st w)) = Inr (tracked', last_run')"
    and T: "py_in (JStr (p_id p)) tracked'" by blast
  have later: "\<forall>r \<in> set (runs_pt (store_after (main_pt st w)) ws).
                 arxiv_link (p_id p) \<notin> set (links_shown r)"
    using runs_never_show[OF L T] by blast
  have here: "arxiv_link (p_id p) \<notin> set (links_shown (main_pt st w))"
    if d: "distinct (map p_id (parse_papers html))"
  proof
    assume "arxiv_link (p_id p) \<in> set (links_shown (main_pt st w))"
    from pt_links_shown[OF this] assms(1,2,3) obtain q where
      q: "q \<in> set (take 5 rel)" and "arxiv_link (p_id p) = arxiv_link (p_id q)" by auto
    then have "p_id q = p_id p" by (simp add: arxiv_link_inj)
    moreover have "distinct (map p_id rel)"
      unfolding assms(3) using d by (rule relevant_distinct_ids)
    ultimately show False using beyond_cap_not_rendered[OF _ assms(5) q] by simp
  qed
  have earlier: "arxiv_link (p_id p) \<notin> set (links_shown r)"
    if "st = final_store st0 ws0" and "r \<in> set (runs_pt st0 ws0)" for st0 ws0 r
  proof
    assume "arxiv_link (p_id p) \<in> set (links_shown r)"
    from earlier_shown_is_tracked[OF that(2) this] that(1) assms(1)
    have "py_in (JStr (p_id p)) tracked" by auto
    with untracked show False by simp
  qed
  from five sent L T later here earlier show ?thesis by blast
qed

text \<open>
  Seven new relevant papers: the digest shows five, the seventh is tracked by the run, and a
  second run on the same listing and a third on the first sample listing show nothing of it.
\<close>

theorem papers_beyond_cap_tracked_unseen_witness:
  "load_tracked None = Inr ([], JNull) \<and>
   length (relevant [] (parse_papers busy_page)) = 7 \<and>
   paper_seven \<in> set (drop 5 (relevant [] (parse_papers busy_page))) \<and>
   distinct (map p_id (parse_papers busy_page)) \<and>
   length (d_entries (message (now busy_world) (relevant [] (parse_papers busy_page)))) = 5 \<and>
   load_tracked (store_after (main_pt None busy_world)) =
     Inr (map JStr [''2601.00005'', ''2601.00002'', ''2601.00001'', ''2601.00003'',
                    ''2601.00004'', ''2601.00006'', ''2601.00007''],
          JStr ''2026-01-08T08:00:00'') \<and>
   arxiv_link ''2601.00007'' \<notin> set (links_shown (main_pt None busy_world)) \<and>
   arxiv_link ''2601.00007'' \<notin>
     set (concat (map links_shown
       (runs_pt (store_after (main_pt None busy_world)) [busy_world, sample_world])))"
proof -
  have a: "load_tracked None = Inr ([], JNull)" by simp
  have b: "arxiv busy_world = Some busy_page" by (simp add: busy_world_def)
  have c: "length (relevant [] (parse_papers busy_page)) = 7" by code_simp
  then have c': "5 < length (relevant [] (parse_papers busy_page))" by simp
  have d: "paper_seven \<in> set (drop 5 (relevant [] (parse_papers busy_page)))" by code_simp
  have e: "distinct (map p_id (parse_papers busy_page))" by code_simp
  have f: "load_tracked (store_after (main_pt None busy_world)) =
     Inr (map JStr [''2601.00005'', ''2601.00002'', ''2601.00001'', ''2601.00003'',
                    ''2601.00004'', ''2601.00006'', ''2601.00007''],
          JStr ''2026-01-08T08:00:00'')" by code_simp
  have g: "p_id paper_seven = ''2601.00007''" by (simp add: paper_seven_def)
  from papers_beyond_cap_tracked_unseen[OF a b refl c' d, of "[busy_world, sample_world]"] e g
  have "length (d_entries (message (now busy_world) (relevant [] (parse_papers busy_page)))) = 5"
    and "arxiv_link ''2601.00007'' \<notin> set (links_shown (main_pt None busy_world))"
    and "\<forall>r \<in> set (runs_pt (store_after (main_pt None busy_world)) [busy_world, sample_world]).
           arxiv_link ''2601.00007'' \<notin> set (links_shown r)"
    by simp_all
  with a c d e f show ?thesis by simp
qed

end
